theory Spec2Isabelle
  imports Main "HOL-Library.Word"
begin

section \<open>Data model (engine/table.go, parser/ast.go)\<close>

text \<open>
  A row value is Go's \<^verbatim>\<open>interface{}\<close> holding an \<^verbatim>\<open>int\<close> (64 bits), a
  \<^verbatim>\<open>string\<close>, a \<^verbatim>\<open>bool\<close> or \<^verbatim>\<open>nil\<close>. Go's \<^verbatim>\<open>==\<close> on two such
  interface values and \<^verbatim>\<open>reflect.DeepEqual\<close> both compare the dynamic type and the value,
  which is HOL equality on this datatype.
\<close>

datatype val = VNil | VInt "64 word" | VString string | VBool bool

text \<open>
  \<^verbatim>\<open>type DataType int\<close> with the constants \<^verbatim>\<open>DATATYPE_INTEGER\<close>, \<^verbatim>\<open>DATATYPE_TEXT\<close>,
  \<^verbatim>\<open>DATATYPE_BOOLEAN\<close>; \<open>DATATYPE_other\<close> stands for any other integer, which every
  \<^verbatim>\<open>switch\<close> of the program sends to its default branch.
\<close>

datatype DataType = DATATYPE_INTEGER | DATATYPE_TEXT | DATATYPE_BOOLEAN | DATATYPE_other int

record Column =
  col_Name :: string
  col_DataType :: DataType
  col_PrimaryKey :: bool
  col_Unique :: bool

text \<open>
  Rows are handled through pointers (\<^verbatim>\<open>*Row\<close>): the row sequence and the primary-key
  index of a table hold the same pointers, and an update writes through the pointer. The
  model keeps a store from addresses to row data; \<^verbatim>\<open>Row.Data\<close> is a Go map from column
  names to values, where a key may be present with the value \<^verbatim>\<open>nil\<close>.
\<close>

type_synonym addr = nat
type_synonym RowData = "string \<rightharpoonup> val"
type_synonym heap = "addr \<Rightarrow> RowData"

record Table =
  tbl_Name :: string
  tbl_Columns :: "Column list"
  tbl_Rows :: "addr list"
  tbl_PrimaryKey :: string
  tbl_index :: "val \<rightharpoonup> addr"

text \<open>
  The program's errors are \<^verbatim>\<open>fmt.Errorf\<close> strings; the model has one constructor for
  each message of the engine.
\<close>

datatype error =
    MissingValue string
  | TypeMismatch string DataType val
  | PrimaryKeyViolation val
  | UniqueViolation string val
  | RowNotFound val
  | NoPrimaryKey
  | ColumnNotExist string
  | TableNotExist string
  | JoinedTableNotExist string
  | OnlyEqualityJoins
  | NotAnIdentifier
  | UnsupportedWhere
  | IdentifierInValueContext
  | UnsupportedExpression

text \<open>The error classes of the specification, and the class of each message.\<close>

datatype error_class = SchemaError | ConstraintError | NotFoundError | UnsupportedError

fun class_of :: "error \<Rightarrow> error_class" where
  "class_of (MissingValue c) = SchemaError"
| "class_of (TypeMismatch c d v) = SchemaError"
| "class_of (PrimaryKeyViolation v) = ConstraintError"
| "class_of (UniqueViolation c v) = ConstraintError"
| "class_of (RowNotFound v) = NotFoundError"
| "class_of NoPrimaryKey = SchemaError"
| "class_of (ColumnNotExist c) = SchemaError"
| "class_of (TableNotExist n) = SchemaError"
| "class_of (JoinedTableNotExist n) = SchemaError"
| "class_of OnlyEqualityJoins = UnsupportedError"
| "class_of NotAnIdentifier = UnsupportedError"
| "class_of UnsupportedWhere = UnsupportedError"
| "class_of IdentifierInValueContext = UnsupportedError"
| "class_of UnsupportedExpression = UnsupportedError"

section \<open>Table operations (engine/table.go)\<close>

text \<open>\<^verbatim>\<open>NewTable\<close>: the primary key is the name of the first column flagged so.\<close>

fun NewTable_pk :: "Column list \<Rightarrow> string" where
  "NewTable_pk [] = []"
| "NewTable_pk (c # cs) = (if col_PrimaryKey c then col_Name c else NewTable_pk cs)"

definition NewTable :: "string \<Rightarrow> Column list \<Rightarrow> Table" where
  "NewTable name columns =
     \<lparr>tbl_Name = name, tbl_Columns = columns, tbl_Rows = [],
      tbl_PrimaryKey = NewTable_pk columns, tbl_index = Map.empty\<rparr>"

text \<open>\<^verbatim>\<open>Row.GetValue\<close>: a missing key reads as \<^verbatim>\<open>nil\<close>.\<close>

definition GetValue :: "RowData \<Rightarrow> string \<Rightarrow> val" where
  "GetValue d columnName = (case d columnName of None \<Rightarrow> VNil | Some v \<Rightarrow> v)"

definition SetValue :: "RowData \<Rightarrow> string \<Rightarrow> val \<Rightarrow> RowData" where
  "SetValue d columnName v = d(columnName \<mapsto> v)"

text \<open>
  \<^verbatim>\<open>validateValueType\<close>: a type assertion per declared type; \<^verbatim>\<open>nil\<close> passes none of
  them, and a data type outside the three constants is not checked.
\<close>

fun validateValueType :: "Column \<Rightarrow> val \<Rightarrow> error option" where
  "validateValueType col v =
     (case col_DataType col of
        DATATYPE_INTEGER \<Rightarrow>
          (case v of VInt i \<Rightarrow> None | _ \<Rightarrow> Some (TypeMismatch (col_Name col) DATATYPE_INTEGER v))
      | DATATYPE_TEXT \<Rightarrow>
          (case v of VString s \<Rightarrow> None | _ \<Rightarrow> Some (TypeMismatch (col_Name col) DATATYPE_TEXT v))
      | DATATYPE_BOOLEAN \<Rightarrow>
          (case v of VBool b \<Rightarrow> None | _ \<Rightarrow> Some (TypeMismatch (col_Name col) DATATYPE_BOOLEAN v))
      | DATATYPE_other n \<Rightarrow> None)"

text \<open>First loop of \<^verbatim>\<open>ValidateRow\<close>: every column has a value of its type.\<close>

fun ValidateRow_columns :: "RowData \<Rightarrow> Column list \<Rightarrow> error option" where
  "ValidateRow_columns d [] = None"
| "ValidateRow_columns d (col # cols) =
     (case d (col_Name col) of
        None \<Rightarrow> Some (MissingValue (col_Name col))
      | Some v \<Rightarrow>
          (case validateValueType col v of
             Some e \<Rightarrow> Some e
           | None \<Rightarrow> ValidateRow_columns d cols))"

text \<open>The primary-key check of \<^verbatim>\<open>ValidateRow\<close>: a lookup in the index.\<close>

definition ValidateRow_pk :: "Table \<Rightarrow> RowData \<Rightarrow> error option" where
  "ValidateRow_pk t d =
     (if tbl_PrimaryKey t \<noteq> [] then
        (case d (tbl_PrimaryKey t) of
           Some pkValue \<Rightarrow>
             (case tbl_index t pkValue of
                Some r \<Rightarrow> Some (PrimaryKeyViolation pkValue)
              | None \<Rightarrow> None)
         | None \<Rightarrow> None)
      else None)"

text \<open>
  The scan of the existing rows for one unique column: a stored value collides when it is
  not \<^verbatim>\<open>nil\<close> and equals the new one.
\<close>

fun unique_scan :: "heap \<Rightarrow> string \<Rightarrow> val \<Rightarrow> addr list \<Rightarrow> error option" where
  "unique_scan h c v [] = None"
| "unique_scan h c v (existingRow # rows) =
     (let existingValue = GetValue (h existingRow) c in
      if existingValue \<noteq> VNil \<and> existingValue = v then Some (UniqueViolation c v)
      else unique_scan h c v rows)"

text \<open>Last loop of \<^verbatim>\<open>ValidateRow\<close>: the unique columns that are not the primary key.\<close>

fun ValidateRow_unique :: "heap \<Rightarrow> addr list \<Rightarrow> RowData \<Rightarrow> Column list \<Rightarrow> error option" where
  "ValidateRow_unique h rows d [] = None"
| "ValidateRow_unique h rows d (col # cols) =
     (if col_Unique col \<and> \<not> col_PrimaryKey col then
        (case d (col_Name col) of
           Some v \<Rightarrow>
             (case unique_scan h (col_Name col) v rows of
                Some e \<Rightarrow> Some e
              | None \<Rightarrow> ValidateRow_unique h rows d cols)
         | None \<Rightarrow> ValidateRow_unique h rows d cols)
      else ValidateRow_unique h rows d cols)"

definition ValidateRow :: "heap \<Rightarrow> Table \<Rightarrow> addr \<Rightarrow> error option" where
  "ValidateRow h t row =
     (case ValidateRow_columns (h row) (tbl_Columns t) of
        Some e \<Rightarrow> Some e
      | None \<Rightarrow>
          (case ValidateRow_pk t (h row) of
             Some e \<Rightarrow> Some e
           | None \<Rightarrow> ValidateRow_unique h (tbl_Rows t) (h row) (tbl_Columns t)))"

text \<open>
  \<^verbatim>\<open>InsertRow\<close> returns the error, if any, and the table as the call leaves it: on an
  error the method returns before it writes anything.
\<close>

definition InsertRow :: "heap \<Rightarrow> Table \<Rightarrow> addr \<Rightarrow> error option \<times> Table" where
  "InsertRow h t row =
     (case ValidateRow h t row of
        Some e \<Rightarrow> (Some e, t)
      | None \<Rightarrow>
          (None,
           t\<lparr>tbl_Rows := tbl_Rows t @ [row],
             tbl_index :=
               (if tbl_PrimaryKey t \<noteq> [] then
                  (case h row (tbl_PrimaryKey t) of
                     Some pkValue \<Rightarrow> (tbl_index t)(pkValue \<mapsto> row)
                   | None \<Rightarrow> tbl_index t)
                else tbl_index t)\<rparr>))"

definition FindRowByPrimaryKey :: "Table \<Rightarrow> val \<Rightarrow> addr option" where
  "FindRowByPrimaryKey t pkValue =
     (if tbl_PrimaryKey t = [] then None else tbl_index t pkValue)"

fun findColumn :: "Column list \<Rightarrow> string \<Rightarrow> Column option" where
  "findColumn [] name = None"
| "findColumn (col # cols) name = (if col_Name col = name then Some col else findColumn cols name)"

text \<open>
  \<^verbatim>\<open>UpdateRow\<close>, first loop. \<^verbatim>\<open>updates\<close> is a Go map, ranged over in an order the
  language does not fix: the model takes the pairs as a list, in the order of the iteration.
  Each pair is written through the row pointer as soon as it has passed its checks.
\<close>

fun UpdateRow_apply :: "Table \<Rightarrow> addr \<Rightarrow> heap \<Rightarrow> (string \<times> val) list \<Rightarrow> error option \<times> heap" where
  "UpdateRow_apply t row h [] = (None, h)"
| "UpdateRow_apply t row h ((colName, v) # updates) =
     (case findColumn (tbl_Columns t) colName of
        None \<Rightarrow> (Some (ColumnNotExist colName), h)
      | Some col \<Rightarrow>
          (case validateValueType col v of
             Some e \<Rightarrow> (Some e, h)
           | None \<Rightarrow> UpdateRow_apply t row (h(row := SetValue (h row) colName v)) updates))"

text \<open>The scan of the other rows (\<^verbatim>\<open>existingRow != row\<close> compares pointers).\<close>

fun unique_scan_others :: "heap \<Rightarrow> addr \<Rightarrow> string \<Rightarrow> val \<Rightarrow> addr list \<Rightarrow> error option" where
  "unique_scan_others h row c v [] = None"
| "unique_scan_others h row c v (existingRow # rows) =
     (if existingRow \<noteq> row then
        (let existingValue = GetValue (h existingRow) c in
         if existingValue \<noteq> VNil \<and> existingValue = v then Some (UniqueViolation c v)
         else unique_scan_others h row c v rows)
      else unique_scan_others h row c v rows)"

fun UpdateRow_unique :: "heap \<Rightarrow> addr list \<Rightarrow> addr \<Rightarrow> Column list \<Rightarrow> error option" where
  "UpdateRow_unique h rows row [] = None"
| "UpdateRow_unique h rows row (col # cols) =
     (if col_Unique col \<and> \<not> col_PrimaryKey col then
        (case unique_scan_others h row (col_Name col) (GetValue (h row) (col_Name col)) rows of
           Some e \<Rightarrow> Some e
         | None \<Rightarrow> UpdateRow_unique h rows row cols)
      else UpdateRow_unique h rows row cols)"

text \<open>
  \<^verbatim>\<open>UpdateRow\<close> changes no field of the table, only the row behind the pointer: the
  model returns the error, if any, and the store as the call leaves it.
\<close>

definition UpdateRow :: "heap \<Rightarrow> Table \<Rightarrow> val \<Rightarrow> (string \<times> val) list \<Rightarrow> error option \<times> heap" where
  "UpdateRow h t pkValue updates =
     (case FindRowByPrimaryKey t pkValue of
        None \<Rightarrow> (Some (RowNotFound pkValue), h)
      | Some row \<Rightarrow>
          (case UpdateRow_apply t row h updates of
             (Some e, h') \<Rightarrow> (Some e, h')
           | (None, h') \<Rightarrow> (UpdateRow_unique h' (tbl_Rows t) row (tbl_Columns t), h')))"

text \<open>
  \<^verbatim>\<open>DeleteRow\<close>: the first occurrence of the pointer leaves the row sequence, and the key
  leaves the index.
\<close>

definition DeleteRow :: "Table \<Rightarrow> val \<Rightarrow> error option \<times> Table" where
  "DeleteRow t pkValue =
     (if tbl_PrimaryKey t = [] then (Some NoPrimaryKey, t)
      else
        (case FindRowByPrimaryKey t pkValue of
           None \<Rightarrow> (Some (RowNotFound pkValue), t)
         | Some row \<Rightarrow>
             (None, t\<lparr>tbl_Rows := remove1 row (tbl_Rows t),
                      tbl_index := (tbl_index t)(pkValue := None)\<rparr>)))"

text \<open>\<^verbatim>\<open>SelectRows\<close>: the rows that satisfy the condition, in order; no condition keeps all.\<close>

definition SelectRows :: "heap \<Rightarrow> Table \<Rightarrow> (RowData \<Rightarrow> bool) option \<Rightarrow> addr list" where
  "SelectRows h t whereCondition =
     filter (\<lambda>row. case whereCondition of None \<Rightarrow> True | Some cond \<Rightarrow> cond (h row)) (tbl_Rows t)"

definition GetColumnNames :: "Table \<Rightarrow> string list" where
  "GetColumnNames t = map col_Name (tbl_Columns t)"

section \<open>Statements and expressions (parser/ast.go)\<close>

datatype Expression =
    Identifier string
  | QualifiedIdentifier string string
  | Literal val DataType
  | BinaryExpression Expression string Expression
  | StarExpression

text \<open>The struct \<^verbatim>\<open>BinaryExpression\<close> that \<^verbatim>\<open>JoinClause.On\<close> points to.\<close>

record BinaryExpr =
  be_Left :: Expression
  be_Operator :: string
  be_Right :: Expression

record JoinClause =
  join_TableName :: string
  join_On :: BinaryExpr

record SelectStatement =
  sel_TableName :: string
  sel_Columns :: "Expression list"
  sel_Where :: "Expression option"
  sel_Join :: "JoinClause option"

record DeleteStatement =
  del_TableName :: string
  del_Where :: "Expression option"

record ResultSet =
  rs_Columns :: "string list"
  rs_Rows :: "val list list"

text \<open>\<^verbatim>\<open>Database.Tables\<close>: a Go map from table names to tables.\<close>

type_synonym Database = "string \<rightharpoonup> Table"

section \<open>Query executor (engine/storage.go)\<close>

fun extractColumnName :: "Expression \<Rightarrow> error + string" where
  "extractColumnName (Identifier v) = Inr v"
| "extractColumnName (QualifiedIdentifier t c) = Inr c"
| "extractColumnName e = Inl NotAnIdentifier"

fun evaluateExpression :: "Expression \<Rightarrow> error + val" where
  "evaluateExpression (Literal v d) = Inr v"
| "evaluateExpression (Identifier v) = Inl IdentifierInValueContext"
| "evaluateExpression e = Inl UnsupportedExpression"

text \<open>Go compares strings byte by byte, a proper prefix being smaller.\<close>

fun string_less :: "string \<Rightarrow> string \<Rightarrow> bool" where
  "string_less [] [] = False"
| "string_less [] (y # ys) = True"
| "string_less (x # xs) [] = False"
| "string_less (x # xs) (y # ys) =
     ((of_char x :: nat) < of_char y \<or> (x = y \<and> string_less xs ys))"

text \<open>\<^verbatim>\<open>compareOrdered\<close>: -1, 0 or 1 on two ints or two strings, 0 on anything else.\<close>

fun compareOrdered :: "val \<Rightarrow> val \<Rightarrow> int" where
  "compareOrdered (VInt l) (VInt r) = (if sint l < sint r then - 1 else if sint r < sint l then 1 else 0)"
| "compareOrdered (VString l) (VString r) =
     (if string_less l r then - 1 else if string_less r l then 1 else 0)"
| "compareOrdered l r = 0"

definition compareValues :: "val \<Rightarrow> val \<Rightarrow> string \<Rightarrow> bool" where
  "compareValues left right operator =
     (if operator = ''='' then left = right
      else if operator = ''!='' then left \<noteq> right
      else if operator = ''>'' then compareOrdered left right > 0
      else if operator = ''<'' then compareOrdered left right < 0
      else if operator = ''>='' then compareOrdered left right \<ge> 0
      else if operator = ''<='' then compareOrdered left right \<le> 0
      else False)"

definition buildBinaryCondition ::
  "Expression \<Rightarrow> string \<Rightarrow> Expression \<Rightarrow> error + (RowData \<Rightarrow> bool)" where
  "buildBinaryCondition left operator right =
     (case extractColumnName left of
        Inl e \<Rightarrow> Inl e
      | Inr leftCol \<Rightarrow>
          (case evaluateExpression right of
             Inl e \<Rightarrow> Inl e
           | Inr rightValue \<Rightarrow>
               Inr (\<lambda>row. compareValues (GetValue row leftCol) rightValue operator)))"

fun buildWhereCondition :: "Expression \<Rightarrow> error + (RowData \<Rightarrow> bool)" where
  "buildWhereCondition (BinaryExpression l operator r) = buildBinaryCondition l operator r"
| "buildWhereCondition e = Inl UnsupportedWhere"

text \<open>The condition both \<^verbatim>\<open>ExecuteSelect\<close> and \<^verbatim>\<open>ExecuteDelete\<close> start with: every row
  unless the statement has a WHERE, whose translation may fail.\<close>

definition whereCondition_of :: "Expression option \<Rightarrow> error + (RowData \<Rightarrow> bool)" where
  "whereCondition_of w = (case w of None \<Rightarrow> Inr (\<lambda>row. True) | Some e \<Rightarrow> buildWhereCondition e)"

definition parseJoinCondition :: "BinaryExpr \<Rightarrow> error + (string \<times> string)" where
  "parseJoinCondition expr =
     (if be_Operator expr \<noteq> ''='' then Inl OnlyEqualityJoins
      else
        (case extractColumnName (be_Left expr) of
           Inl e \<Rightarrow> Inl e
         | Inr leftCol \<Rightarrow>
             (case extractColumnName (be_Right expr) of
                Inl e \<Rightarrow> Inl e
              | Inr rightCol \<Rightarrow> Inr (leftCol, rightCol))))"

text \<open>The nested loop of \<^verbatim>\<open>executeJoinSelect\<close>: the inner loop for one left row, and the
  outer loop.\<close>

fun join_inner :: "heap \<Rightarrow> string list \<Rightarrow> string list \<Rightarrow> string \<Rightarrow> string \<Rightarrow> addr \<Rightarrow> addr list
    \<Rightarrow> val list list" where
  "join_inner h lnames rnames leftCol rightCol leftRow [] = []"
| "join_inner h lnames rnames leftCol rightCol leftRow (rightRow # rightRows) =
     (if GetValue (h leftRow) leftCol = GetValue (h rightRow) rightCol
      then (map (GetValue (h leftRow)) lnames @ map (GetValue (h rightRow)) rnames)
             # join_inner h lnames rnames leftCol rightCol leftRow rightRows
      else join_inner h lnames rnames leftCol rightCol leftRow rightRows)"

fun join_outer :: "heap \<Rightarrow> string list \<Rightarrow> string list \<Rightarrow> string \<Rightarrow> string \<Rightarrow> addr list \<Rightarrow> addr list
    \<Rightarrow> val list list" where
  "join_outer h lnames rnames leftCol rightCol [] rightRows = []"
| "join_outer h lnames rnames leftCol rightCol (leftRow # leftRows) rightRows =
     join_inner h lnames rnames leftCol rightCol leftRow rightRows
       @ join_outer h lnames rnames leftCol rightCol leftRows rightRows"

text \<open>\<^verbatim>\<open>executeJoinSelect\<close>; \<open>join\<close> is \<^verbatim>\<open>stmt.Join\<close>, which the caller has found present.\<close>

definition executeJoinSelect :: "heap \<Rightarrow> Database \<Rightarrow> Table \<Rightarrow> JoinClause \<Rightarrow> error + ResultSet" where
  "executeJoinSelect h db leftTable join =
     (case db (join_TableName join) of
        None \<Rightarrow> Inl (JoinedTableNotExist (join_TableName join))
      | Some rightTable \<Rightarrow>
          (case parseJoinCondition (join_On join) of
             Inl e \<Rightarrow> Inl e
           | Inr (leftCol, rightCol) \<Rightarrow>
               Inr \<lparr>rs_Columns = GetColumnNames leftTable @ GetColumnNames rightTable,
                    rs_Rows = join_outer h (GetColumnNames leftTable) (GetColumnNames rightTable)
                                leftCol rightCol (tbl_Rows leftTable) (tbl_Rows rightTable)\<rparr>))"

text \<open>The loop over a projection list of \<^verbatim>\<open>ExecuteSelect\<close>, which stops at the first
  expression that is no identifier.\<close>

fun extractColumnNames :: "Expression list \<Rightarrow> error + string list" where
  "extractColumnNames [] = Inr []"
| "extractColumnNames (col # cols) =
     (case extractColumnName col of
        Inl e \<Rightarrow> Inl e
      | Inr colName \<Rightarrow>
          (case extractColumnNames cols of
             Inl e \<Rightarrow> Inl e
           | Inr names \<Rightarrow> Inr (colName # names)))"

text \<open>The columns a SELECT without JOIN returns.\<close>

definition select_columnNames :: "Table \<Rightarrow> Expression list \<Rightarrow> error + string list" where
  "select_columnNames table columns =
     (case columns of
        [StarExpression] \<Rightarrow> Inr (GetColumnNames table)
      | _ \<Rightarrow> extractColumnNames columns)"

text \<open>
  \<^verbatim>\<open>ExecuteSelect\<close>: the table is looked up, the WHERE is translated, and only then a JOIN
  is handed to \<^verbatim>\<open>executeJoinSelect\<close>, which does not receive the condition.
\<close>

definition ExecuteSelect :: "heap \<Rightarrow> Database \<Rightarrow> SelectStatement \<Rightarrow> error + ResultSet" where
  "ExecuteSelect h db stmt =
     (case db (sel_TableName stmt) of
        None \<Rightarrow> Inl (TableNotExist (sel_TableName stmt))
      | Some table \<Rightarrow>
          (case whereCondition_of (sel_Where stmt) of
             Inl e \<Rightarrow> Inl e
           | Inr whereCondition \<Rightarrow>
               (case sel_Join stmt of
                  Some join \<Rightarrow> executeJoinSelect h db table join
                | None \<Rightarrow>
                    (case select_columnNames table (sel_Columns stmt) of
                       Inl e \<Rightarrow> Inl e
                     | Inr columnNames \<Rightarrow>
                         Inr \<lparr>rs_Columns = columnNames,
                              rs_Rows = map (\<lambda>row. map (GetValue (h row)) columnNames)
                                          (SelectRows h table (Some whereCondition))\<rparr>))))"

text \<open>The second loop of \<^verbatim>\<open>ExecuteDelete\<close>: the collected keys are deleted one by one, up
  to the first error.\<close>

fun ExecuteDelete_loop :: "Table \<Rightarrow> val list \<Rightarrow> error option \<times> Table" where
  "ExecuteDelete_loop t [] = (None, t)"
| "ExecuteDelete_loop t (pkValue # pkValues) =
     (case DeleteRow t pkValue of
        (Some e, t') \<Rightarrow> (Some e, t')
      | (None, t') \<Rightarrow> ExecuteDelete_loop t' pkValues)"

text \<open>
  \<^verbatim>\<open>ExecuteDelete\<close>: the first loop collects the key of a matching row only when the table
  has a primary key. The table is changed through its pointer; the model stores the changed
  table under its name.
\<close>

definition ExecuteDelete :: "heap \<Rightarrow> Database \<Rightarrow> DeleteStatement \<Rightarrow> error option \<times> Database" where
  "ExecuteDelete h db stmt =
     (case db (del_TableName stmt) of
        None \<Rightarrow> (Some (TableNotExist (del_TableName stmt)), db)
      | Some table \<Rightarrow>
          (case whereCondition_of (del_Where stmt) of
             Inl e \<Rightarrow> (Some e, db)
           | Inr whereCondition \<Rightarrow>
               (let rowsToDelete =
                      map (\<lambda>row. GetValue (h row) (tbl_PrimaryKey table))
                        (filter (\<lambda>row. whereCondition (h row) \<and> tbl_PrimaryKey table \<noteq> [])
                           (tbl_Rows table))
                in case ExecuteDelete_loop table rowsToDelete of
                     (err, table') \<Rightarrow> (err, db(del_TableName stmt \<mapsto> table')))))"

section \<open>Lexer (parser/lexer.go)\<close>

datatype TokenType =
    TOKEN_SELECT | TOKEN_INSERT | TOKEN_UPDATE | TOKEN_DELETE | TOKEN_CREATE | TOKEN_TABLE
  | TOKEN_FROM | TOKEN_WHERE | TOKEN_VALUES | TOKEN_SET | TOKEN_INTO | TOKEN_JOIN | TOKEN_ON
  | TOKEN_PRIMARY | TOKEN_KEY | TOKEN_UNIQUE
  | TOKEN_IDENTIFIER | TOKEN_STRING | TOKEN_NUMBER | TOKEN_TRUE | TOKEN_FALSE
  | TOKEN_EQUALS | TOKEN_NOT_EQUALS | TOKEN_GREATER | TOKEN_LESS | TOKEN_GREATER_EQUALS
  | TOKEN_LESS_EQUALS | TOKEN_COMMA | TOKEN_SEMICOLON | TOKEN_LEFT_PAREN | TOKEN_RIGHT_PAREN
  | TOKEN_STAR | TOKEN_DOT
  | TOKEN_EOF

record Token =
  tok_Type :: TokenType
  tok_Literal :: string

text \<open>
  The lexer walks a byte string with one byte of lookahead. The model keeps the input from
  the current byte on: \<^verbatim>\<open>l.current\<close> is its first byte, and 0 once the input is used up.
\<close>

type_synonym Lexer = string

definition current :: "Lexer \<Rightarrow> char" where
  "current l = (case l of [] \<Rightarrow> CHR 0x00 | c # cs \<Rightarrow> c)"

definition readChar :: "Lexer \<Rightarrow> Lexer" where
  "readChar l = tl l"

definition peekChar :: "Lexer \<Rightarrow> char" where
  "peekChar l = current (tl l)"

text \<open>
  \<^verbatim>\<open>unicode.IsLetter\<close> and \<^verbatim>\<open>unicode.IsDigit\<close> of a byte taken as a code point, that
  is, of a Latin-1 character.
\<close>

definition isLetter :: "char \<Rightarrow> bool" where
  "isLetter ch =
     (let n = (of_char ch :: nat) in
      (65 \<le> n \<and> n \<le> 90) \<or> (97 \<le> n \<and> n \<le> 122) \<or> n = 170 \<or> n = 181 \<or> n = 186
      \<or> (192 \<le> n \<and> n \<le> 214) \<or> (216 \<le> n \<and> n \<le> 246) \<or> (248 \<le> n \<and> n \<le> 255)
      \<or> ch = CHR ''_'')"

definition isDigit :: "char \<Rightarrow> bool" where
  "isDigit ch = (let n = (of_char ch :: nat) in 48 \<le> n \<and> n \<le> 57)"

definition skipWhitespace :: "Lexer \<Rightarrow> Lexer" where
  "skipWhitespace l =
     dropWhile (\<lambda>c. c = CHR '' '' \<or> c = CHR 0x09 \<or> c = CHR 0x0A \<or> c = CHR 0x0D) l"

definition readIdentifier :: "Lexer \<Rightarrow> string \<times> Lexer" where
  "readIdentifier l =
     (takeWhile (\<lambda>c. isLetter c \<or> isDigit c \<or> c = CHR ''_'') l,
      dropWhile (\<lambda>c. isLetter c \<or> isDigit c \<or> c = CHR ''_'') l)"

definition readNumber :: "Lexer \<Rightarrow> string \<times> Lexer" where
  "readNumber l = (takeWhile isDigit l, dropWhile isDigit l)"

text \<open>\<^verbatim>\<open>readString\<close> starts on the opening quote; a string without closing quote runs to
  the end of the input (or to a zero byte).\<close>

definition readString :: "Lexer \<Rightarrow> string \<times> Lexer" where
  "readString l =
     (let l1 = readChar l;
          s = takeWhile (\<lambda>c. c \<noteq> CHR 0x27 \<and> c \<noteq> CHR 0x00) l1;
          l2 = dropWhile (\<lambda>c. c \<noteq> CHR 0x27 \<and> c \<noteq> CHR 0x00) l1
      in if current l2 = CHR 0x27 then (s, readChar l2) else (s, l2))"

text \<open>
  \<^verbatim>\<open>strings.ToUpper\<close> on an identifier, compared with the keywords: an identifier is a run
  of bytes that pass \<^verbatim>\<open>isLetter\<close> or \<^verbatim>\<open>isDigit\<close>, and only one made of ASCII letters
  has a keyword as its upper case, so the model maps the ASCII letters.
\<close>

definition upper_char :: "char \<Rightarrow> char" where
  "upper_char c =
     (let n = (of_char c :: nat) in if 97 \<le> n \<and> n \<le> 122 then char_of (n - 32) else c)"

definition lookupIdent :: "string \<Rightarrow> TokenType" where
  "lookupIdent ident =
     (let u = map upper_char ident in
      if u = ''SELECT'' then TOKEN_SELECT
      else if u = ''INSERT'' then TOKEN_INSERT
      else if u = ''UPDATE'' then TOKEN_UPDATE
      else if u = ''DELETE'' then TOKEN_DELETE
      else if u = ''CREATE'' then TOKEN_CREATE
      else if u = ''TABLE'' then TOKEN_TABLE
      else if u = ''FROM'' then TOKEN_FROM
      else if u = ''WHERE'' then TOKEN_WHERE
      else if u = ''VALUES'' then TOKEN_VALUES
      else if u = ''SET'' then TOKEN_SET
      else if u = ''INTO'' then TOKEN_INTO
      else if u = ''JOIN'' then TOKEN_JOIN
      else if u = ''ON'' then TOKEN_ON
      else if u = ''PRIMARY'' then TOKEN_PRIMARY
      else if u = ''KEY'' then TOKEN_KEY
      else if u = ''UNIQUE'' then TOKEN_UNIQUE
      else if u = ''TRUE'' then TOKEN_TRUE
      else if u = ''FALSE'' then TOKEN_FALSE
      else TOKEN_IDENTIFIER)"

definition token :: "TokenType \<Rightarrow> string \<Rightarrow> Token" where
  "token t s = \<lparr>tok_Type = t, tok_Literal = s\<rparr>"

text \<open>
  \<^verbatim>\<open>string(l.current)\<close>: Go converts a byte, as an integer, to the UTF-8 encoding of
  the code point of that number, which is the byte itself below 0x80 and two bytes from
  there on.
\<close>

definition string_of_byte :: "char \<Rightarrow> string" where
  "string_of_byte c =
     (let n = (of_char c :: nat) in
      if n < 128 then [c] else [char_of (192 + n div 64), char_of (128 + n mod 64)])"

definition NextToken :: "Lexer \<Rightarrow> Token \<times> Lexer" where
  "NextToken l0 =
     (let l = skipWhitespace l0; c = current l in
      if c = CHR ''='' then (token TOKEN_EQUALS ''='', readChar l)
      else if c = CHR ''!'' then
        (if peekChar l = CHR ''='' then (token TOKEN_NOT_EQUALS ''!='', readChar (readChar l))
         else (token TOKEN_IDENTIFIER ''!'', readChar l))
      else if c = CHR ''>'' then
        (if peekChar l = CHR ''='' then (token TOKEN_GREATER_EQUALS ''>='', readChar (readChar l))
         else (token TOKEN_GREATER ''>'', readChar l))
      else if c = CHR ''<'' then
        (if peekChar l = CHR ''='' then (token TOKEN_LESS_EQUALS ''<='', readChar (readChar l))
         else (token TOKEN_LESS ''<'', readChar l))
      else if c = CHR '','' then (token TOKEN_COMMA '','', readChar l)
      else if c = CHR '';'' then (token TOKEN_SEMICOLON '';'', readChar l)
      else if c = CHR ''('' then (token TOKEN_LEFT_PAREN ''('', readChar l)
      else if c = CHR '')'' then (token TOKEN_RIGHT_PAREN '')'', readChar l)
      else if c = CHR ''*'' then (token TOKEN_STAR ''*'', readChar l)
      else if c = CHR ''.'' then (token TOKEN_DOT ''.'', readChar l)
      else if c = CHR 0x00 then (token TOKEN_EOF [], readChar l)
      else if isLetter c then
        (case readIdentifier l of (lit, l') \<Rightarrow> (token (lookupIdent lit) lit, l'))
      else if isDigit c then
        (case readNumber l of (lit, l') \<Rightarrow> (token TOKEN_NUMBER lit, l'))
      else if c = CHR 0x27 then
        (case readString l of (lit, l') \<Rightarrow> (token TOKEN_STRING lit, l'))
      else (token TOKEN_IDENTIFIER (string_of_byte c), readChar l))"

definition NewLexer :: "string \<Rightarrow> Lexer" where
  "NewLexer input = input"

section \<open>Parser of CREATE TABLE (parser/parser.go)\<close>

record ColumnDefinition =
  cd_Name :: string
  cd_DataType :: DataType
  cd_PrimaryKey :: bool
  cd_Unique :: bool

record CreateTableStatement =
  ct_TableName :: string
  ct_Columns :: "ColumnDefinition list"

text \<open>The parser: its lexer, two tokens, and the diagnostics of \<^verbatim>\<open>peekError\<close>, each kept
  as the pair of the expected and the found token type.\<close>

record Parser =
  p_lexer :: Lexer
  p_currentToken :: Token
  p_peekToken :: Token
  p_errors :: "(TokenType \<times> TokenType) list"

definition nextToken :: "Parser \<Rightarrow> Parser" where
  "nextToken p =
     (case NextToken (p_lexer p) of
        (tok, l) \<Rightarrow> p\<lparr>p_currentToken := p_peekToken p, p_peekToken := tok, p_lexer := l\<rparr>)"

definition NewParser :: "Lexer \<Rightarrow> Parser" where
  "NewParser l =
     nextToken (nextToken \<lparr>p_lexer = l, p_currentToken = token TOKEN_SELECT [],
                            p_peekToken = token TOKEN_SELECT [], p_errors = []\<rparr>)"

definition peekTokenIs :: "Parser \<Rightarrow> TokenType \<Rightarrow> bool" where
  "peekTokenIs p t = (tok_Type (p_peekToken p) = t)"

definition peekError :: "Parser \<Rightarrow> TokenType \<Rightarrow> Parser" where
  "peekError p t = p\<lparr>p_errors := p_errors p @ [(t, tok_Type (p_peekToken p))]\<rparr>"

definition expectPeek :: "Parser \<Rightarrow> TokenType \<Rightarrow> bool \<times> Parser" where
  "expectPeek p t = (if peekTokenIs p t then (True, nextToken p) else (False, peekError p t))"

text \<open>\<^verbatim>\<open>parseDataType\<close>; the errors of the parser are their messages.\<close>

definition parseDataType :: "Parser \<Rightarrow> (string + DataType) \<times> Parser" where
  "parseDataType p =
     (case expectPeek p TOKEN_IDENTIFIER of
        (False, p1) \<Rightarrow> (Inl ''expected data type'', p1)
      | (True, p1) \<Rightarrow>
          (let lit = tok_Literal (p_currentToken p1) in
           if lit = ''INTEGER'' \<or> lit = ''INT'' then (Inr DATATYPE_INTEGER, p1)
           else if lit = ''TEXT'' \<or> lit = ''VARCHAR'' then (Inr DATATYPE_TEXT, p1)
           else if lit = ''BOOLEAN'' \<or> lit = ''BOOL'' then (Inr DATATYPE_BOOLEAN, p1)
           else (Inl (''unknown data type: '' @ lit), p1)))"

text \<open>The PRIMARY KEY or UNIQUE after a column's type.\<close>

definition parseColumnConstraint :: "Parser \<Rightarrow> ColumnDefinition \<Rightarrow> ColumnDefinition \<times> Parser" where
  "parseColumnConstraint p col =
     (if peekTokenIs p TOKEN_PRIMARY then
        (case expectPeek (nextToken p) TOKEN_KEY of
           (True, p1) \<Rightarrow> (col\<lparr>cd_PrimaryKey := True\<rparr>, p1)
         | (False, p1) \<Rightarrow> (col, p1))
      else if peekTokenIs p TOKEN_UNIQUE then (col\<lparr>cd_Unique := True\<rparr>, nextToken p)
      else (col, p))"

subsection \<open>Termination of the column loop\<close>

text \<open>What is left to read: the bytes of the lexer, and the peek token unless it is the end.
  Every token read but the end-of-input token consumes at least one byte.\<close>

definition remaining :: "Parser \<Rightarrow> nat" where
  "remaining p = length (p_lexer p) + (if tok_Type (p_peekToken p) = TOKEN_EOF then 0 else 1)"

lemma NextToken_length:
  "length (snd (NextToken l)) \<le> length l
   \<and> (tok_Type (fst (NextToken l)) \<noteq> TOKEN_EOF \<longrightarrow> length (snd (NextToken l)) < length l)"
proof (cases "skipWhitespace l")
  case Nil
  then show ?thesis
    by (simp add: NextToken_def Let_def current_def readChar_def token_def)
next
  case (Cons c cs)
  have "length (skipWhitespace l) \<le> length l"
    by (simp add: skipWhitespace_def length_dropWhile_le)
  with Cons have lcs: "Suc (length cs) \<le> length l" by simp
  have A: "length (dropWhile P cs) < length l" for P
    using length_dropWhile_le [of P cs] lcs by linarith
  have B: "length (dropWhile P cs) - Suc 0 < length l" for P
    using A [of P] by simp
  have C: "length cs < length l" "length cs - Suc 0 < length l"
    using lcs by simp_all
  show ?thesis
    unfolding NextToken_def
    by (simp add: Let_def Cons current_def readChar_def peekChar_def token_def readIdentifier_def
        readNumber_def readString_def A B C less_imp_le)
qed


lemma nextToken_remaining:
  "remaining (nextToken p) \<le> remaining p"
  "tok_Type (p_peekToken p) \<noteq> TOKEN_EOF \<Longrightarrow> remaining (nextToken p) < remaining p"
  using NextToken_length [of "p_lexer p"]
  by (auto simp: remaining_def nextToken_def split: prod.splits)

lemma expectPeek_remaining:
  "remaining (snd (expectPeek p t)) \<le> remaining p"
  "fst (expectPeek p t) \<Longrightarrow> t \<noteq> TOKEN_EOF \<Longrightarrow> remaining (snd (expectPeek p t)) < remaining p"
  using nextToken_remaining [of p]
  by (auto simp: expectPeek_def peekTokenIs_def peekError_def remaining_def split: if_splits)

lemma parseDataType_remaining:
  "remaining (snd (parseDataType p)) \<le> remaining p"
  using expectPeek_remaining(1) [of p TOKEN_IDENTIFIER]
  by (auto simp: parseDataType_def Let_def split: prod.splits bool.splits)

lemma parseColumnConstraint_remaining:
  "remaining (snd (parseColumnConstraint p col)) \<le> remaining p"
  using nextToken_remaining(1) [of p] expectPeek_remaining(1) [of "nextToken p" TOKEN_KEY]
  by (auto simp: parseColumnConstraint_def split: prod.splits bool.splits)

lemma parseColumnDefinitions_step:
  assumes "expectPeek p TOKEN_IDENTIFIER = (True, p1)" and "parseDataType p1 = (r, p2)"
    and "parseColumnConstraint p2 c = (col, p3)"
  shows "remaining p3 < remaining p"
    and "expectPeek p3 TOKEN_COMMA = (b, p4) \<Longrightarrow> remaining p4 < remaining p"
proof -
  have "remaining p1 < remaining p"
    using expectPeek_remaining(2) [of p TOKEN_IDENTIFIER] assms(1) by simp
  moreover have "remaining p2 \<le> remaining p1"
    using parseDataType_remaining [of p1] assms(2) by simp
  moreover have "remaining p3 \<le> remaining p2"
    using parseColumnConstraint_remaining [of p2 c] assms(3) by simp
  ultimately show a: "remaining p3 < remaining p" by simp
  show "remaining p4 < remaining p" if "expectPeek p3 TOKEN_COMMA = (b, p4)"
    using expectPeek_remaining(1) [of p3 TOKEN_COMMA] that a by simp
qed

text \<open>The loop of \<^verbatim>\<open>parseColumnDefinitions\<close>, with the columns read so far: the loop is
  left (\<^verbatim>\<open>break\<close>) with these columns when a column does not parse.\<close>

function parseColumnDefinitions_loop ::
  "Parser \<Rightarrow> ColumnDefinition list \<Rightarrow> ColumnDefinition list \<times> Parser" where
  "parseColumnDefinitions_loop p columns =
     (if \<not> peekTokenIs p TOKEN_RIGHT_PAREN \<and> \<not> peekTokenIs p TOKEN_EOF then
        (case expectPeek p TOKEN_IDENTIFIER of
           (False, p1) \<Rightarrow> (columns, p1)
         | (True, p1) \<Rightarrow>
             (case parseDataType p1 of
                (Inl err, p2) \<Rightarrow> (columns, p2)
              | (Inr dataType, p2) \<Rightarrow>
                  (case parseColumnConstraint p2
                          \<lparr>cd_Name = tok_Literal (p_currentToken p1), cd_DataType = dataType,
                           cd_PrimaryKey = False, cd_Unique = False\<rparr> of
                     (col, p3) \<Rightarrow>
                       (if \<not> peekTokenIs p3 TOKEN_RIGHT_PAREN then
                          (case expectPeek p3 TOKEN_COMMA of
                             (False, p4) \<Rightarrow> (columns @ [col], p4)
                           | (True, p4) \<Rightarrow> parseColumnDefinitions_loop p4 (columns @ [col]))
                        else parseColumnDefinitions_loop p3 (columns @ [col])))))
      else (columns, p))"
  by pat_completeness auto
termination
proof (relation "measure (\<lambda>(p, columns). remaining p)", goal_cases)
  case 1
  then show ?case by simp
next
  case 2
  then show ?case
    using parseColumnDefinitions_step by (auto dest!: sym [of "(_, _)"])
next
  case 3
  then show ?case
    using parseColumnDefinitions_step by (auto dest!: sym [of "(_, _)"])
qed

definition parseColumnDefinitions :: "Parser \<Rightarrow> ColumnDefinition list \<times> Parser" where
  "parseColumnDefinitions p = parseColumnDefinitions_loop p []"

definition parseCreateStatement :: "Parser \<Rightarrow> (string + CreateTableStatement) \<times> Parser" where
  "parseCreateStatement p =
     (case expectPeek p TOKEN_TABLE of
        (False, p1) \<Rightarrow> (Inl ''expected TABLE after CREATE'', p1)
      | (True, p1) \<Rightarrow>
          (case expectPeek p1 TOKEN_IDENTIFIER of
             (False, p2) \<Rightarrow> (Inl ''expected table name after TABLE'', p2)
           | (True, p2) \<Rightarrow>
               (case expectPeek p2 TOKEN_LEFT_PAREN of
                  (False, p3) \<Rightarrow> (Inl ''expected ( after table name'', p3)
                | (True, p3) \<Rightarrow>
                    (case parseColumnDefinitions p3 of
                       (columns, p4) \<Rightarrow>
                         (case expectPeek p4 TOKEN_RIGHT_PAREN of
                            (False, p5) \<Rightarrow> (Inl ''expected ) after column definitions'', p5)
                          | (True, p5) \<Rightarrow>
                              (Inr \<lparr>ct_TableName = tok_Literal (p_currentToken p2),
                                    ct_Columns = columns\<rparr>, p5))))))"

lemmas lexer_defs = NextToken_def string_of_byte_def skipWhitespace_def current_def peekChar_def readChar_def
  isLetter_def isDigit_def readIdentifier_def readNumber_def readString_def lookupIdent_def
  upper_char_def token_def Let_def NewLexer_def

lemmas parser_defs = NewParser_def nextToken_def peekTokenIs_def peekError_def expectPeek_def
  parseDataType_def parseColumnConstraint_def parseColumnDefinitions_def parseCreateStatement_def

section \<open>Library functions of Go used by the persistence codec\<close>

text \<open>\<^verbatim>\<open>strings.Join\<close>.\<close>

fun Join :: "string list \<Rightarrow> string \<Rightarrow> string" where
  "Join [] sep = []"
| "Join [x] sep = x"
| "Join (x # y # ys) sep = x @ sep @ Join (y # ys) sep"

text \<open>\<^verbatim>\<open>strings.Split\<close> for a separator of one byte, the only kind the program uses: the
  pieces between the occurrences of the separator, one more than there are occurrences.\<close>

fun Split :: "string \<Rightarrow> char \<Rightarrow> string list" where
  "Split [] sep = [[]]"
| "Split (c # cs) sep =
     (if c = sep then [] # Split cs sep
      else (case Split cs sep of x # xs \<Rightarrow> (c # x) # xs | [] \<Rightarrow> [[c]]))"

definition HasPrefix :: "string \<Rightarrow> string \<Rightarrow> bool" where
  "HasPrefix s p = (take (length p) s = p)"

definition TrimPrefix :: "string \<Rightarrow> string \<Rightarrow> string" where
  "TrimPrefix s p = (if HasPrefix s p then drop (length p) s else s)"

text \<open>
  \<^verbatim>\<open>strings.TrimSpace\<close> removes the leading and the trailing code points that
  \<^verbatim>\<open>unicode.IsSpace\<close> accepts, reading the string as UTF-8. These are their encodings:
  tab to carriage return, space, U+0085, U+00A0, U+1680, U+2000 to U+200A, U+2028, U+2029,
  U+202F, U+205F and U+3000.
\<close>

definition space_runes :: "string list" where
  "space_runes =
     [[CHR 0x09], [CHR 0x0A], [CHR 0x0B], [CHR 0x0C], [CHR 0x0D], [CHR 0x20],
      [CHR 0xC2, CHR 0x85], [CHR 0xC2, CHR 0xA0], [CHR 0xE1, CHR 0x9A, CHR 0x80],
      [CHR 0xE2, CHR 0x80, CHR 0x80], [CHR 0xE2, CHR 0x80, CHR 0x81],
      [CHR 0xE2, CHR 0x80, CHR 0x82], [CHR 0xE2, CHR 0x80, CHR 0x83],
      [CHR 0xE2, CHR 0x80, CHR 0x84], [CHR 0xE2, CHR 0x80, CHR 0x85],
      [CHR 0xE2, CHR 0x80, CHR 0x86], [CHR 0xE2, CHR 0x80, CHR 0x87],
      [CHR 0xE2, CHR 0x80, CHR 0x88], [CHR 0xE2, CHR 0x80, CHR 0x89],
      [CHR 0xE2, CHR 0x80, CHR 0x8A], [CHR 0xE2, CHR 0x80, CHR 0xA8],
      [CHR 0xE2, CHR 0x80, CHR 0xA9], [CHR 0xE2, CHR 0x80, CHR 0xAF],
      [CHR 0xE2, CHR 0x81, CHR 0x9F], [CHR 0xE3, CHR 0x80, CHR 0x80]]"

text \<open>The space at the front of a string, if there is one.\<close>

definition leading_space :: "string list \<Rightarrow> string \<Rightarrow> string option" where
  "leading_space runes s = find (\<lambda>p. p \<noteq> [] \<and> take (length p) s = p) runes"

function trim_left :: "string list \<Rightarrow> string \<Rightarrow> string" where
  "trim_left runes s =
     (case leading_space runes s of
        None \<Rightarrow> s
      | Some p \<Rightarrow> trim_left runes (drop (length p) s))"
  by pat_completeness auto
termination
proof (relation "measure (\<lambda>(runes, s). length s)", goal_cases)
  case 1
  then show ?case by simp
next
  case (2 runes s p)
  then have "p \<noteq> [] \<and> take (length p) s = p"
    by (auto simp: leading_space_def dest: find_Some_iff [THEN iffD1])
  then have "s \<noteq> []" by auto
  with \<open>p \<noteq> [] \<and> take (length p) s = p\<close> show ?case by simp
qed

text \<open>The trailing spaces are the leading spaces of the reversed string, each reversed.\<close>

definition TrimSpace :: "string \<Rightarrow> string" where
  "TrimSpace s = rev (trim_left (map rev space_runes) (rev (trim_left space_runes s)))"

text \<open>\<^verbatim>\<open>strings.ReplaceAll(v, "\"", "\"\"")\<close>: every quote is doubled.\<close>

fun double_quotes :: "string \<Rightarrow> string" where
  "double_quotes [] = []"
| "double_quotes (c # cs) =
     (if c = CHR 0x22 then CHR 0x22 # CHR 0x22 # double_quotes cs else c # double_quotes cs)"

text \<open>\<^verbatim>\<open>strings.ReplaceAll(s, "\"\"", "\"")\<close>: from the left, every pair of quotes becomes
  one.\<close>

fun single_quotes :: "string \<Rightarrow> string" where
  "single_quotes (a # b # cs) =
     (if a = CHR 0x22 \<and> b = CHR 0x22 then CHR 0x22 # single_quotes cs
      else a # single_quotes (b # cs))"
| "single_quotes cs = cs"

text \<open>
  \<^verbatim>\<open>strings.ToLower\<close>, as far as the program needs it: the result is compared with
  \<^verbatim>\<open>true\<close>, \<^verbatim>\<open>1\<close>, \<^verbatim>\<open>false\<close> and \<^verbatim>\<open>0\<close>, and no code point outside ASCII has one
  of their letters as its lower case, so the model maps the ASCII letters.
\<close>

definition lower_char :: "char \<Rightarrow> char" where
  "lower_char c =
     (let n = (of_char c :: nat) in if 65 \<le> n \<and> n \<le> 90 then char_of (n + 32) else c)"

definition ToLower :: "string \<Rightarrow> string" where
  "ToLower s = map lower_char s"

text \<open>Decimal digits, for \<^verbatim>\<open>fmt.Sprintf("%v", n)\<close> and \<^verbatim>\<open>strconv.Atoi\<close>.\<close>

definition digit_char :: "nat \<Rightarrow> char" where
  "digit_char d = char_of (48 + d)"

fun nat_to_string :: "nat \<Rightarrow> string" where
  "nat_to_string n = (if n < 10 then [digit_char n] else nat_to_string (n div 10) @ [digit_char (n mod 10)])"

definition int_to_string :: "int \<Rightarrow> string" where
  "int_to_string i = (if i < 0 then CHR ''-'' # nat_to_string (nat (- i)) else nat_to_string (nat i))"

definition is_digit_char :: "char \<Rightarrow> bool" where
  "is_digit_char c = (let n = (of_char c :: nat) in 48 \<le> n \<and> n \<le> 57)"

definition digits_value :: "string \<Rightarrow> nat" where
  "digits_value ds = foldl (\<lambda>n c. n * 10 + (of_char c - 48)) 0 ds"

text \<open>
  \<^verbatim>\<open>strconv.Atoi\<close> on a 64-bit platform: an optional sign, then decimal digits, at least
  one and nothing else, whose value fits an \<^verbatim>\<open>int\<close>; \<open>None\<close> is the error.
\<close>

definition Atoi :: "string \<Rightarrow> 64 word option" where
  "Atoi s =
     (let neg = (s \<noteq> [] \<and> hd s = CHR ''-'');
          ds = (if s \<noteq> [] \<and> (hd s = CHR ''-'' \<or> hd s = CHR ''+'') then tl s else s)
      in if ds = [] \<or> \<not> list_all is_digit_char ds then None
         else (let v = (if neg then - int (digits_value ds) else int (digits_value ds))
               in if - (2 ^ 63) \<le> v \<and> v < 2 ^ 63 then Some (word_of_int v) else None))"

section \<open>Persistence codec (engine/table.go)\<close>

fun DataType_String :: "DataType \<Rightarrow> string" where
  "DataType_String DATATYPE_INTEGER = ''INTEGER''"
| "DataType_String DATATYPE_TEXT = ''TEXT''"
| "DataType_String DATATYPE_BOOLEAN = ''BOOLEAN''"
| "DataType_String (DATATYPE_other n) = ''UNKNOWN''"

text \<open>\<^verbatim>\<open>formatValue\<close>; the default branch prints an int in decimal, and \<^verbatim>\<open>nil\<close>, which
  \<^verbatim>\<open>ToCSV\<close> never passes, as \<^verbatim>\<open><nil>\<close>.\<close>

fun formatValue :: "val \<Rightarrow> string" where
  "formatValue (VString v) =
     (if CHR '','' \<in> set v \<or> CHR 0x22 \<in> set v then [CHR 0x22] @ double_quotes v @ [CHR 0x22] else v)"
| "formatValue (VBool v) = (if v then ''true'' else ''false'')"
| "formatValue (VInt v) = int_to_string (sint v)"
| "formatValue VNil = ''<nil>''"

definition colDef_of :: "Column \<Rightarrow> string" where
  "colDef_of col =
     col_Name col @ '':'' @ DataType_String (col_DataType col)
       @ (if col_PrimaryKey col then '':PRIMARY_KEY'' else [])
       @ (if col_Unique col then '':UNIQUE'' else [])"

definition row_line :: "RowData \<Rightarrow> string list \<Rightarrow> string" where
  "row_line d colNames =
     Join (map (\<lambda>colName. let v = GetValue d colName in if v = VNil then [] else formatValue v)
             colNames) '',''"

definition ToCSV :: "heap \<Rightarrow> Table \<Rightarrow> string" where
  "ToCSV h t =
     Join ((''# SCHEMA: '' @ Join (map colDef_of (tbl_Columns t)) '','')
             # map (\<lambda>row. row_line (h row) (GetColumnNames t)) (tbl_Rows t))
       [CHR 0x0A]"

fun parseDataType_csv :: "string \<Rightarrow> DataType" where
  "parseDataType_csv s =
     (if s = ''INTEGER'' then DATATYPE_INTEGER
      else if s = ''TEXT'' then DATATYPE_TEXT
      else if s = ''BOOLEAN'' then DATATYPE_BOOLEAN
      else DATATYPE_TEXT)"

datatype csv_error =
    EmptyCSV
  | InvalidSchemaLine string
  | InvalidColumnDefinition string
  | RowLength nat nat nat
  | ParseValueError string string
  | InsertError nat error

text \<open>\<^verbatim>\<open>parseValue\<close>; \<open>None\<close> is its error, and an empty field is \<^verbatim>\<open>nil\<close>.\<close>

definition parseValue :: "string \<Rightarrow> DataType \<Rightarrow> val option" where
  "parseValue s0 dataType =
     (let s = TrimSpace s0 in
      if s = [] then Some VNil
      else
        (case dataType of
           DATATYPE_INTEGER \<Rightarrow> (case Atoi s of None \<Rightarrow> None | Some i \<Rightarrow> Some (VInt i))
         | DATATYPE_BOOLEAN \<Rightarrow>
             (if ToLower s = ''true'' \<or> ToLower s = ''1'' then Some (VBool True)
              else if ToLower s = ''false'' \<or> ToLower s = ''0'' then Some (VBool False)
              else None)
         | DATATYPE_TEXT \<Rightarrow>
             (if length s \<ge> 2 \<and> hd s = CHR 0x22 \<and> last s = CHR 0x22
              then Some (VString (single_quotes (butlast (tl s))))
              else Some (VString s))
         | DATATYPE_other n \<Rightarrow> Some (VString s)))"

text \<open>The loop of \<^verbatim>\<open>parseCSVLine\<close> over the bytes of a line, with its three variables.\<close>

fun parseCSVLine_loop :: "bool \<Rightarrow> string \<Rightarrow> string list \<Rightarrow> string \<Rightarrow> string list" where
  "parseCSVLine_loop inQuotes cur vals [] = vals @ [cur]"
| "parseCSVLine_loop inQuotes cur vals (c # cs) =
     (if c = CHR 0x22 \<and> \<not> inQuotes then parseCSVLine_loop True cur vals cs
      else if c = CHR 0x22 \<and> inQuotes \<and> cs \<noteq> [] \<and> hd cs = CHR 0x22
        then parseCSVLine_loop inQuotes (cur @ [CHR 0x22]) vals (tl cs)
      else if c = CHR 0x22 \<and> inQuotes then parseCSVLine_loop False cur vals cs
      else if c = CHR '','' \<and> \<not> inQuotes then parseCSVLine_loop inQuotes [] (vals @ [cur]) cs
      else parseCSVLine_loop inQuotes (cur @ [c]) vals cs)"

definition parseCSVLine :: "string \<Rightarrow> string list" where
  "parseCSVLine line = parseCSVLine_loop False [] [] line"


text \<open>One column descriptor of the schema line.\<close>

definition parse_colDef :: "string \<Rightarrow> csv_error + Column" where
  "parse_colDef colDef0 =
     (let colDef = TrimSpace colDef0; parts = Split colDef (CHR '':'') in
      if length parts < 2 then Inl (InvalidColumnDefinition colDef)
      else Inr \<lparr>col_Name = parts ! 0, col_DataType = parseDataType_csv (parts ! 1),
                col_PrimaryKey = list_ex (\<lambda>part. part = ''PRIMARY_KEY'') (drop 2 parts),
                col_Unique = list_ex (\<lambda>part. part = ''UNIQUE'') (drop 2 parts)\<rparr>)"

fun parse_colDefs :: "string list \<Rightarrow> csv_error + Column list" where
  "parse_colDefs [] = Inr []"
| "parse_colDefs (colDef # colDefs) =
     (case parse_colDef colDef of
        Inl e \<Rightarrow> Inl e
      | Inr col \<Rightarrow>
          (case parse_colDefs colDefs of
             Inl e \<Rightarrow> Inl e
           | Inr cols \<Rightarrow> Inr (col # cols)))"

text \<open>The values of one line, parsed and stored under the names of their columns; the
  caller has checked that there are as many values as columns.\<close>

fun fill_row :: "Column list \<Rightarrow> string list \<Rightarrow> RowData \<Rightarrow> csv_error + RowData" where
  "fill_row (col # cols) (v # vs) d =
     (case parseValue v (col_DataType col) of
        None \<Rightarrow> Inl (ParseValueError (col_Name col) v)
      | Some parsedValue \<Rightarrow> fill_row cols vs (SetValue d (col_Name col) parsedValue))"
| "fill_row cols vs d = Inr d"

text \<open>
  The loop over the data lines, \<open>i\<close> being the number of the line. \<^verbatim>\<open>NewRow\<close> allocates a
  row: the model takes the address \<open>next\<close>, above every address in use, and returns the store
  and the next free address with the table.
\<close>

fun load_rows ::
  "Column list \<Rightarrow> nat \<Rightarrow> string list \<Rightarrow> heap \<Rightarrow> addr \<Rightarrow> Table \<Rightarrow> csv_error + (Table \<times> heap \<times> addr)" where
  "load_rows columns i [] h next t = Inr (t, h, next)"
| "load_rows columns i (l # ls) h next t =
     (let line = TrimSpace l in
      if line = [] then load_rows columns (Suc i) ls h next t
      else
        (let vals = parseCSVLine line in
         if length vals \<noteq> length columns then Inl (RowLength i (length vals) (length columns))
         else
           (case fill_row columns vals Map.empty of
              Inl e \<Rightarrow> Inl e
            | Inr d \<Rightarrow>
                (case InsertRow (h(next := d)) t next of
                   (Some e, t') \<Rightarrow> Inl (InsertError i e)
                 | (None, t') \<Rightarrow> load_rows columns (Suc i) ls (h(next := d)) (Suc next) t'))))"

definition TableFromCSV ::
  "heap \<Rightarrow> addr \<Rightarrow> string \<Rightarrow> string \<Rightarrow> csv_error + (Table \<times> heap \<times> addr)" where
  "TableFromCSV h next name csvData =
     (case Split csvData (CHR 0x0A) of
        [] \<Rightarrow> Inl EmptyCSV
      | schemaLine # dataLines \<Rightarrow>
          if \<not> HasPrefix schemaLine ''# SCHEMA: '' then Inl (InvalidSchemaLine schemaLine)
          else
            (case parse_colDefs (Split (TrimPrefix schemaLine ''# SCHEMA: '') (CHR '','')) of
               Inl e \<Rightarrow> Inl e
             | Inr columns \<Rightarrow> load_rows columns 1 dataLines h next (NewTable name columns)))"

text \<open>The values of the rows of a table, row by row in the order of the columns.\<close>

definition row_values :: "heap \<Rightarrow> Table \<Rightarrow> val list list" where
  "row_values h t = map (\<lambda>row. map (GetValue (h row)) (GetColumnNames t)) (tbl_Rows t)"

text \<open>Rows inserted one after the other, up to the first error.\<close>

fun InsertRows :: "heap \<Rightarrow> Table \<Rightarrow> addr list \<Rightarrow> error option \<times> Table" where
  "InsertRows h t [] = (None, t)"
| "InsertRows h t (row # rows) =
     (case InsertRow h t row of
        (Some e, t') \<Rightarrow> (Some e, t')
      | (None, t') \<Rightarrow> InsertRows h t' rows)"

text \<open>
  The conditions of the amended round trip. A column name the schema line can carry: no
  comma, colon or newline in it and no white space at its front. A Text value a data line
  can carry: not empty, no newline in it, no white space at either end, and not a text of
  two or more bytes that both starts and ends with a quote.
\<close>

definition name_ok :: "string \<Rightarrow> bool" where
  "name_ok n =
     (CHR '','' \<notin> set n \<and> CHR '':'' \<notin> set n \<and> CHR 0x0A \<notin> set n \<and> trim_left space_runes n = n)"

definition text_ok :: "string \<Rightarrow> bool" where
  "text_ok s =
     (s \<noteq> [] \<and> CHR 0x0A \<notin> set s \<and> TrimSpace s = s
      \<and> \<not> (2 \<le> length s \<and> hd s = CHR 0x22 \<and> last s = CHR 0x22))"

definition value_ok :: "val \<Rightarrow> bool" where
  "value_ok v = (case v of VString s \<Rightarrow> text_ok s | _ \<Rightarrow> True)"

section \<open>Notions used in the proofs about the codec\<close>

definition plain_char :: "char \<Rightarrow> bool" where
  "plain_char c = ((of_char c :: nat) < 128 \<and> (of_char c :: nat) \<notin> {9, 10, 11, 12, 13, 32})"

text \<open>What \<^verbatim>\<open>parseCSVLine\<close> makes of the field that \<^verbatim>\<open>ToCSV\<close> writes for a value.\<close>

fun content :: "val \<Rightarrow> string" where
  "content (VString s) = s"
| "content v = formatValue v"

definition in_range :: "DataType \<Rightarrow> bool" where
  "in_range d = (d = DATATYPE_INTEGER \<or> d = DATATYPE_TEXT \<or> d = DATATYPE_BOOLEAN)"

text \<open>A row that a data line can carry: every column holds a value of its type, and the
  Text values are as \<open>text_ok\<close> says.\<close>

definition row_ok :: "Column list \<Rightarrow> RowData \<Rightarrow> bool" where
  "row_ok cols d =
     (\<forall>c \<in> set cols. \<exists>v. d (col_Name c) = Some v \<and> validateValueType c v = None \<and> value_ok v)"

text \<open>
  The loaded table against the saved one: same name, columns and primary key, the same keys
  in the index, and row by row the same values under the columns' names.
\<close>

definition sim :: "Column list \<Rightarrow> heap \<Rightarrow> Table \<Rightarrow> heap \<Rightarrow> Table \<Rightarrow> bool" where
  "sim cols h t h' t' =
     (tbl_Columns t = cols \<and> tbl_Columns t' = cols \<and> tbl_PrimaryKey t' = tbl_PrimaryKey t
      \<and> tbl_Name t' = tbl_Name t
      \<and> (\<forall>v. tbl_index t' v = None \<longleftrightarrow> tbl_index t v = None)
      \<and> list_all2 (\<lambda>r r'. \<forall>c \<in> set cols. h' r' (col_Name c) = h r (col_Name c))
            (tbl_Rows t) (tbl_Rows t'))"

text \<open>The descriptor of a column after its name and the colon.\<close>

definition colDef_tail :: "Column \<Rightarrow> string" where
  "colDef_tail col =
     DataType_String (col_DataType col)
       @ (if col_PrimaryKey col then '':PRIMARY_KEY'' else [])
       @ (if col_Unique col then '':UNIQUE'' else [])"

definition loaded_values :: "csv_error + (Table \<times> heap \<times> addr) \<Rightarrow> csv_error + val list list" where
  "loaded_values r = (case r of Inl e \<Rightarrow> Inl e | Inr (t, h, n) \<Rightarrow> Inr (row_values h t))"

section \<open>The ordering of the specification\<close>

text \<open>
  "Strictly greater" as the specification uses it for a predicate \<^verbatim>\<open>col > literal\<close>: both
  operands are Integers, compared as signed numbers, or both are Texts, compared as Go compares
  strings; no other pair of values is ordered.
\<close>

definition strictly_greater :: "val \<Rightarrow> val \<Rightarrow> bool" where
  "strictly_greater a b =
     (case (a, b) of
        (VInt x, VInt y) \<Rightarrow> sint y < sint x
      | (VString x, VString y) \<Rightarrow> string_less y x
      | _ \<Rightarrow> False)"

section \<open>Example tables\<close>

definition ex_column :: "string \<Rightarrow> DataType \<Rightarrow> bool \<Rightarrow> bool \<Rightarrow> Column" where
  "ex_column n d pk u = \<lparr>col_Name = n, col_DataType = d, col_PrimaryKey = pk, col_Unique = u\<rparr>"

text \<open>\<^verbatim>\<open>accounts (id INTEGER PRIMARY KEY, email TEXT UNIQUE)\<close>\<close>

definition ex_accounts_cols :: "Column list" where
  "ex_accounts_cols =
     [ex_column ''id'' DATATYPE_INTEGER True False, ex_column ''email'' DATATYPE_TEXT False True]"

definition ex_account :: "64 word \<Rightarrow> val \<Rightarrow> RowData" where
  "ex_account i e = [''id'' \<mapsto> VInt i, ''email'' \<mapsto> e]"

text \<open>\<^verbatim>\<open>users (id INTEGER PRIMARY KEY, name TEXT, age INTEGER)\<close>\<close>

definition ex_users_cols :: "Column list" where
  "ex_users_cols =
     [ex_column ''id'' DATATYPE_INTEGER True False, ex_column ''name'' DATATYPE_TEXT False False,
      ex_column ''age'' DATATYPE_INTEGER False False]"

definition ex_user :: "64 word \<Rightarrow> string \<Rightarrow> 64 word \<Rightarrow> RowData" where
  "ex_user i n a = [''id'' \<mapsto> VInt i, ''name'' \<mapsto> VString n, ''age'' \<mapsto> VInt a]"

text \<open>\<^verbatim>\<open>posts (id INTEGER PRIMARY KEY, user_id INTEGER, title TEXT)\<close>\<close>

definition ex_posts_cols :: "Column list" where
  "ex_posts_cols =
     [ex_column ''id'' DATATYPE_INTEGER True False, ex_column ''user_id'' DATATYPE_INTEGER False False,
      ex_column ''title'' DATATYPE_TEXT False False]"

definition ex_post :: "64 word \<Rightarrow> 64 word \<Rightarrow> string \<Rightarrow> RowData" where
  "ex_post i u t = [''id'' \<mapsto> VInt i, ''user_id'' \<mapsto> VInt u, ''title'' \<mapsto> VString t]"

text \<open>
  The store of the examples: account rows at the addresses 0 to 5, user rows at 10 and 11,
  post rows at 20 to 22, and at 30 a row of the table \<^verbatim>\<open>notes (body TEXT)\<close>.
\<close>

definition ex_heap :: heap where
  "ex_heap = (\<lambda>a. Map.empty)
     (0 := ex_account 1 (VString ''a''),
      1 := ex_account 2 (VString ''b''),
      2 := ex_account 1 (VString ''c''),
      3 := ex_account 3 VNil,
      4 := ex_account 3 (VString ''a''),
      5 := ex_account 1 (VInt 7),
      10 := ex_user 1 ''Alice'' 25,
      11 := ex_user 2 ''Bob'' 30,
      20 := ex_post 1 1 ''Hello World'',
      21 := ex_post 2 2 ''Second'',
      22 := ex_post 3 1 ''Third'',
      30 := [''body'' \<mapsto> VString ''x''])"

text \<open>The accounts table when empty, after the insert of row 0, and after that of row 1.\<close>

definition ex_accounts0 :: Table where
  "ex_accounts0 = NewTable ''accounts'' ex_accounts_cols"

definition ex_accounts1 :: Table where
  "ex_accounts1 = \<lparr>tbl_Name = ''accounts'', tbl_Columns = ex_accounts_cols, tbl_Rows = [0],
     tbl_PrimaryKey = ''id'', tbl_index = [VInt 1 \<mapsto> 0]\<rparr>"

definition ex_accounts2 :: Table where
  "ex_accounts2 = \<lparr>tbl_Name = ''accounts'', tbl_Columns = ex_accounts_cols, tbl_Rows = [0, 1],
     tbl_PrimaryKey = ''id'', tbl_index = [VInt 1 \<mapsto> 0, VInt 2 \<mapsto> 1]\<rparr>"

definition ex_users :: Table where
  "ex_users = \<lparr>tbl_Name = ''users'', tbl_Columns = ex_users_cols, tbl_Rows = [10, 11],
     tbl_PrimaryKey = ''id'', tbl_index = [VInt 1 \<mapsto> 10, VInt 2 \<mapsto> 11]\<rparr>"

definition ex_posts :: Table where
  "ex_posts = \<lparr>tbl_Name = ''posts'', tbl_Columns = ex_posts_cols, tbl_Rows = [20, 21, 22],
     tbl_PrimaryKey = ''id'', tbl_index = [VInt 1 \<mapsto> 20, VInt 2 \<mapsto> 21, VInt 3 \<mapsto> 22]\<rparr>"

definition ex_notes :: Table where
  "ex_notes = \<lparr>tbl_Name = ''notes'',
     tbl_Columns = [ex_column ''body'' DATATYPE_TEXT False False], tbl_Rows = [30],
     tbl_PrimaryKey = [], tbl_index = Map.empty\<rparr>"

definition ex_db :: Database where
  "ex_db = [''users'' \<mapsto> ex_users, ''posts'' \<mapsto> ex_posts, ''notes'' \<mapsto> ex_notes]"

text \<open>\<^verbatim>\<open>members (id INTEGER PRIMARY KEY, email TEXT UNIQUE, active BOOLEAN)\<close>, with its
  own store.\<close>

definition ex_members_cols :: "Column list" where
  "ex_members_cols =
     [ex_column ''id'' DATATYPE_INTEGER True False, ex_column ''email'' DATATYPE_TEXT False True,
      ex_column ''active'' DATATYPE_BOOLEAN False False]"

definition ex_member :: "64 word \<Rightarrow> string \<Rightarrow> bool \<Rightarrow> RowData" where
  "ex_member i e a = [''id'' \<mapsto> VInt i, ''email'' \<mapsto> VString e, ''active'' \<mapsto> VBool a]"

definition ex_members_heap :: heap where
  "ex_members_heap = (\<lambda>a. Map.empty)
     (0 := ex_member 1 ''a,b'' True, 1 := ex_member (- 2) (''say '' @ [CHR 0x22] @ ''hi'' @ [CHR 0x22]) False,
      2 := ex_member 3 '' c'' True, 3 := ex_member 4 [] True,
      4 := ex_member 5 ([CHR 0x22] @ ''q'' @ [CHR 0x22]) False)"

definition ex_members :: Table where
  "ex_members = \<lparr>tbl_Name = ''members'', tbl_Columns = ex_members_cols, tbl_Rows = [0, 1],
     tbl_PrimaryKey = ''id'', tbl_index = [VInt 1 \<mapsto> 0, VInt (- 2) \<mapsto> 1]\<rparr>"

definition ex_members_empty :: Table where
  "ex_members_empty = \<lparr>tbl_Name = ''members'', tbl_Columns = ex_members_cols, tbl_Rows = [3],
     tbl_PrimaryKey = ''id'', tbl_index = [VInt 4 \<mapsto> 3]\<rparr>"

definition ex_members_quoted :: Table where
  "ex_members_quoted = \<lparr>tbl_Name = ''members'', tbl_Columns = ex_members_cols, tbl_Rows = [4],
     tbl_PrimaryKey = ''id'', tbl_index = [VInt 5 \<mapsto> 4]\<rparr>"

definition ex_members_space :: Table where
  "ex_members_space = \<lparr>tbl_Name = ''members'', tbl_Columns = ex_members_cols, tbl_Rows = [2],
     tbl_PrimaryKey = ''id'', tbl_index = [VInt 3 \<mapsto> 2]\<rparr>"

lemmas ex_codec_defs = ex_column_def ex_members_cols_def ex_member_def ex_members_heap_def
  ex_members_def ex_members_space_def ex_members_empty_def ex_members_quoted_def

lemmas ex_defs = ex_column_def ex_accounts_cols_def ex_account_def ex_users_cols_def ex_user_def
  ex_posts_cols_def ex_post_def ex_heap_def ex_accounts0_def ex_accounts1_def ex_accounts2_def
  ex_users_def ex_posts_def ex_notes_def ex_db_def NewTable_def

section \<open>Primary-key uniqueness on insert\<close>

lemma InsertRow_fail_unchanged:
  "fst (InsertRow h t row) = Some e \<Longrightarrow> snd (InsertRow h t row) = t"
  by (simp add: InsertRow_def split: option.splits)

lemma InsertRow_index_kept:
  assumes "InsertRow h t row = (None, t')" and "tbl_index t v \<noteq> None"
  shows "tbl_index t' v \<noteq> None" and "tbl_PrimaryKey t' = tbl_PrimaryKey t"
  using assms by (auto simp: InsertRow_def split: option.splits if_splits)

lemma InsertRow_indexes_key:
  assumes "InsertRow h t row = (None, t')" and "tbl_PrimaryKey t \<noteq> []"
    and "h row (tbl_PrimaryKey t) = Some v"
  shows "tbl_index t' v = Some row" and "tbl_PrimaryKey t' = tbl_PrimaryKey t"
  using assms by (auto simp: InsertRow_def split: option.splits if_splits)

lemma ValidateRow_indexed_key_fails:
  assumes "tbl_PrimaryKey t \<noteq> []" and "h row (tbl_PrimaryKey t) = Some v"
    and "tbl_index t v \<noteq> None"
  shows "\<exists>e. ValidateRow h t row = Some e"
    and "ValidateRow_columns (h row) (tbl_Columns t) = None
         \<Longrightarrow> ValidateRow h t row = Some (PrimaryKeyViolation v)"
  using assms by (auto simp: ValidateRow_def ValidateRow_pk_def split: option.splits)

lemma ValidateRow_columns_class:
  "ValidateRow_columns d cols = Some e \<Longrightarrow> class_of e = SchemaError"
  by (induction cols) (auto split: option.splits DataType.splits val.splits)

text \<open>
  C1 as stated fails for a second row that does not pass the schema checks, which
  \<^verbatim>\<open>ValidateRow\<close> runs before it looks at the primary key. The accounts table holds the row
  (1, a); the row at address 5 has the same key 1 and an Integer in the Text column
  \<^verbatim>\<open>email\<close>. Its insert fails with the type error, a SchemaError and no ConstraintError.
\<close>

theorem C1_duplicate_primary_key_counterexample:
  "InsertRow ex_heap ex_accounts0 0 = (None, ex_accounts1)
   \<and> ex_heap 0 ''id'' = Some (VInt 1) \<and> ex_heap 5 ''id'' = Some (VInt 1)
   \<and> InsertRow ex_heap ex_accounts1 5
       = (Some (TypeMismatch ''email'' DATATYPE_TEXT (VInt 7)), ex_accounts1)
   \<and> class_of (TypeMismatch ''email'' DATATYPE_TEXT (VInt 7)) = SchemaError"
  by (simp add: InsertRow_def ValidateRow_def ValidateRow_pk_def ex_defs)

text \<open>
  C1, amended. In a table with a primary key, after a row with the key value \<open>v\<close> has been
  inserted, the insert of a second row with the same key value fails and leaves the table,
  and so its row sequence, as the first insert left it: the rows before the first insert
  followed by the first row. When the second row passes the schema checks (every column
  holds a value of its type), the error is the primary-key violation, a ConstraintError;
  when it does not, the error is that of the first schema check that fails, a SchemaError.
\<close>

theorem C1_duplicate_primary_key:
  assumes "tbl_PrimaryKey t \<noteq> []"
    and "InsertRow h t row1 = (None, t1)"
    and "h row1 (tbl_PrimaryKey t) = Some v"
    and "h2 row2 (tbl_PrimaryKey t) = Some v"
  shows "\<exists>e. InsertRow h2 t1 row2 = (Some e, t1)
           \<and> tbl_Rows t1 = tbl_Rows t @ [row1]
           \<and> length (tbl_Rows (snd (InsertRow h2 t1 row2))) = length (tbl_Rows t1)
           \<and> (ValidateRow_columns (h2 row2) (tbl_Columns t1) = None
                \<longrightarrow> e = PrimaryKeyViolation v \<and> class_of e = ConstraintError)
           \<and> (ValidateRow_columns (h2 row2) (tbl_Columns t1) \<noteq> None
                \<longrightarrow> ValidateRow_columns (h2 row2) (tbl_Columns t1) = Some e
                    \<and> class_of e = SchemaError)"
proof -
  have idx: "tbl_index t1 v \<noteq> None" and pk: "tbl_PrimaryKey t1 = tbl_PrimaryKey t"
    using InsertRow_indexes_key [of h t row1 t1 v] assms(1-3) by simp_all
  have rows: "tbl_Rows t1 = tbl_Rows t @ [row1]"
    using assms(2) by (auto simp: InsertRow_def split: option.splits)
  from pk assms(1,4) have pk1: "tbl_PrimaryKey t1 \<noteq> []" and key: "h2 row2 (tbl_PrimaryKey t1) = Some v"
    by simp_all
  obtain e where e: "ValidateRow h2 t1 row2 = Some e"
    using ValidateRow_indexed_key_fails(1) [of t1 h2 row2 v] pk1 key idx by blast
  have ok: "ValidateRow_columns (h2 row2) (tbl_Columns t1) = None \<Longrightarrow> e = PrimaryKeyViolation v"
    using ValidateRow_indexed_key_fails(2) [of t1 h2 row2 v] pk1 key idx e by simp
  have bad: "ValidateRow_columns (h2 row2) (tbl_Columns t1) = Some e \<and> class_of e = SchemaError"
    if "ValidateRow_columns (h2 row2) (tbl_Columns t1) \<noteq> None"
  proof -
    from that obtain e' where e': "ValidateRow_columns (h2 row2) (tbl_Columns t1) = Some e'"
      by auto
    with e have "e = e'" by (simp add: ValidateRow_def)
    with e' ValidateRow_columns_class [OF e'] show ?thesis by simp
  qed
  from e have i: "InsertRow h2 t1 row2 = (Some e, t1)" by (simp add: InsertRow_def)
  from i rows ok bad show ?thesis by auto
qed

theorem C1_duplicate_primary_key_witness:
  "InsertRow ex_heap ex_accounts0 0 = (None, ex_accounts1)
   \<and> InsertRow ex_heap ex_accounts1 2 = (Some (PrimaryKeyViolation (VInt 1)), ex_accounts1)
   \<and> tbl_Rows ex_accounts1 = [0]"
proof -
  have a: "tbl_PrimaryKey ex_accounts0 \<noteq> []"
    by (simp add: ex_defs)
  have b: "InsertRow ex_heap ex_accounts0 0 = (None, ex_accounts1)"
    by (simp add: InsertRow_def ValidateRow_def ValidateRow_pk_def ex_defs)
  have c: "ex_heap 0 (tbl_PrimaryKey ex_accounts0) = Some (VInt 1)"
    by (simp add: ex_defs)
  have d: "ex_heap 2 (tbl_PrimaryKey ex_accounts0) = Some (VInt 1)"
    by (simp add: ex_defs)
  have v: "ValidateRow_columns (ex_heap 2) (tbl_Columns ex_accounts1) = None"
    by (simp add: ex_defs)
  from C1_duplicate_primary_key [of ex_accounts0 ex_heap 0 ex_accounts1 "VInt 1" ex_heap 2] a b c d v
  show ?thesis
    by (auto simp: ex_accounts1_def)
qed

section \<open>Unique columns and Null on insert\<close>

lemma ValidateRow_columns_nil:
  "col \<in> set cols \<Longrightarrow> col_DataType col \<in> {DATATYPE_INTEGER, DATATYPE_TEXT, DATATYPE_BOOLEAN}
   \<Longrightarrow> d (col_Name col) = Some VNil
   \<Longrightarrow> \<exists>e. ValidateRow_columns d cols = Some e \<and> class_of e = SchemaError"
proof (induction cols)
  case Nil
  then show ?case by simp
next
  case (Cons c cols)
  show ?case
  proof (cases "c = col")
    case True
    with Cons.prems show ?thesis by (auto split: DataType.splits)
  next
    case False
    with Cons show ?thesis by (auto split: option.splits DataType.splits val.splits)
  qed
qed

text \<open>
  A row that holds \<^verbatim>\<open>nil\<close> in a column of one of the three declared types is never
  inserted, whatever the flags of the column.
\<close>

lemma InsertRow_nil_rejected:
  assumes "col \<in> set (tbl_Columns t)"
    and "col_DataType col \<in> {DATATYPE_INTEGER, DATATYPE_TEXT, DATATYPE_BOOLEAN}"
    and "h row (col_Name col) = Some VNil"
  shows "\<exists>e. InsertRow h t row = (Some e, t) \<and> class_of e = SchemaError"
  using ValidateRow_columns_nil [OF assms(1,2), of "h row"] assms(3)
  by (auto simp: InsertRow_def ValidateRow_def)

lemma unique_scan_Some:
  "unique_scan h c v rows = Some e \<Longrightarrow>
     e = UniqueViolation c v \<and> v \<noteq> VNil \<and> (\<exists>r \<in> set rows. GetValue (h r) c = v)"
  by (induction rows) (auto simp: Let_def split: if_splits)

lemma unique_scan_hit:
  "r \<in> set rows \<Longrightarrow> GetValue (h r) c = v \<Longrightarrow> v \<noteq> VNil
   \<Longrightarrow> unique_scan h c v rows = Some (UniqueViolation c v)"
  by (induction rows) (auto simp: Let_def)

lemma ValidateRow_unique_class:
  "ValidateRow_unique h rows d cols = Some e \<Longrightarrow> class_of e = ConstraintError"
  by (induction cols) (auto split: if_splits option.splits dest: unique_scan_Some)

lemma ValidateRow_unique_hit:
  "col \<in> set cols \<Longrightarrow> col_Unique col \<Longrightarrow> \<not> col_PrimaryKey col \<Longrightarrow> d (col_Name col) = Some v
   \<Longrightarrow> v \<noteq> VNil \<Longrightarrow> r \<in> set rows \<Longrightarrow> GetValue (h r) (col_Name col) = v
   \<Longrightarrow> \<exists>e. ValidateRow_unique h rows d cols = Some e"
proof (induction cols)
  case Nil
  then show ?case by simp
next
  case (Cons c cols)
  show ?case
  proof (cases "c = col")
    case True
    with Cons.prems show ?thesis by (simp add: unique_scan_hit)
  next
    case False
    with Cons show ?thesis by (auto split: option.splits)
  qed
qed

text \<open>
  The second half of C3 holds on the code: a schema-valid row whose value in a unique column
  that is not the primary key equals the value, not \<^verbatim>\<open>nil\<close>, of an existing row is refused
  with a ConstraintError, and the table is left as it was.
\<close>

lemma InsertRow_unique_duplicate:
  assumes "col \<in> set (tbl_Columns t)" "col_Unique col" "\<not> col_PrimaryKey col"
    and "h row (col_Name col) = Some v" "v \<noteq> VNil"
    and "r \<in> set (tbl_Rows t)" "GetValue (h r) (col_Name col) = v"
    and "ValidateRow_columns (h row) (tbl_Columns t) = None"
  shows "\<exists>e. InsertRow h t row = (Some e, t) \<and> class_of e = ConstraintError"
proof -
  obtain e where e: "ValidateRow_unique h (tbl_Rows t) (h row) (tbl_Columns t) = Some e"
    using ValidateRow_unique_hit [of col "tbl_Columns t" "h row" v r "tbl_Rows t" h] assms by blast
  then have c: "class_of e = ConstraintError" by (rule ValidateRow_unique_class)
  show ?thesis
    using e c assms(8)
    by (auto simp: InsertRow_def ValidateRow_def ValidateRow_pk_def split: option.splits)
qed

lemma InsertRow_unique_duplicate_example:
  "InsertRow ex_heap ex_accounts2 4 = (Some (UniqueViolation ''email'' (VString ''a'')), ex_accounts2)"
  by (simp add: InsertRow_def ValidateRow_def ValidateRow_pk_def ex_defs GetValue_def)

text \<open>
  C3, the first half, on the code. The accounts table has the unique column \<^verbatim>\<open>email\<close>
  (TEXT, not the primary key) and holds the rows (1, a) and (2, b); the row at address 3 is
  (3, Null). Its insert is refused by the type check of \<^verbatim>\<open>validateValueType\<close>, before
  any uniqueness check runs, and the table keeps its two rows: a row with Null in a unique
  column cannot be inserted once, let alone twice.
\<close>

theorem C3_null_in_unique_column_rejected:
  "InsertRow ex_heap ex_accounts2 3 = (Some (TypeMismatch ''email'' DATATYPE_TEXT VNil), ex_accounts2)"
  by (simp add: InsertRow_def ValidateRow_def ValidateRow_pk_def ex_defs)

section \<open>DELETE on a table without primary key\<close>

text \<open>
  On a table without primary key, \<^verbatim>\<open>Table.DeleteRow\<close> fails with the SchemaError "table
  has no primary key" and leaves the table unchanged. \<^verbatim>\<open>ExecuteDelete\<close> never reaches it:
  it collects the key of a matching row only when the table has a primary key, so on such a
  table it calls \<^verbatim>\<open>DeleteRow\<close> for no row; it returns success and removes nothing whenever
  the WHERE clause is absent or translates to a condition, and returns the translation error
  otherwise.
\<close>

lemma ExecuteDelete_without_primary_key:
  assumes "db (del_TableName stmt) = Some t" and "tbl_PrimaryKey t = []"
  shows "DeleteRow t pkValue = (Some NoPrimaryKey, t) \<and> class_of NoPrimaryKey = SchemaError
         \<and> ExecuteDelete h db stmt =
             (case whereCondition_of (del_Where stmt) of
                Inl e \<Rightarrow> (Some e, db)
              | Inr c \<Rightarrow> (None, db))"
proof -
  have "db(del_TableName stmt \<mapsto> t) = db"
    using assms(1) by (rule fun_upd_idem)
  then show ?thesis
    using assms by (simp add: DeleteRow_def ExecuteDelete_def split: sum.splits)
qed

text \<open>
  C4 on the code. The table \<^verbatim>\<open>notes\<close> has no primary key and one row, with the body
  \<^verbatim>\<open>x\<close>. \<^verbatim>\<open>DeleteRow\<close> on it fails with "table has no primary key", but
  \<^verbatim>\<open>DELETE FROM notes\<close> and \<^verbatim>\<open>DELETE FROM notes WHERE body = 'x'\<close> both return no
  error and leave the database as it was, the row still in the table.
\<close>

theorem C4_delete_without_primary_key_succeeds:
  "ex_db ''notes'' = Some ex_notes \<and> tbl_PrimaryKey ex_notes = [] \<and> tbl_Rows ex_notes = [30]
   \<and> DeleteRow ex_notes (VString ''x'') = (Some NoPrimaryKey, ex_notes)
   \<and> ExecuteDelete ex_heap ex_db \<lparr>del_TableName = ''notes'', del_Where = None\<rparr> = (None, ex_db)
   \<and> ExecuteDelete ex_heap ex_db \<lparr>del_TableName = ''notes'',
        del_Where = Some (BinaryExpression (Identifier ''body'') ''=''
                            (Literal (VString ''x'') DATATYPE_TEXT))\<rparr>
      = (None, ex_db)"
  by (simp add: DeleteRow_def ExecuteDelete_def whereCondition_of_def buildBinaryCondition_def
      compareValues_def GetValue_def ex_defs)

section \<open>UPDATE through the primary key\<close>

lemma UpdateRow_apply_None:
  "UpdateRow_apply t row h ups = (None, h') \<Longrightarrow>
     h' = h(row := fold (\<lambda>(c, v) d. SetValue d c v) ups (h row))"
proof (induction ups arbitrary: h)
  case Nil
  then show ?case by simp
next
  case (Cons u ups)
  obtain c v where u: "u = (c, v)" by (cases u)
  from Cons.prems u have "UpdateRow_apply t row (h(row := SetValue (h row) c v)) ups = (None, h')"
    by (auto split: option.splits)
  from Cons.IH [OF this] u show ?case by (simp add: fun_eq_iff)
qed

lemma fold_SetValue_other:
  "c \<notin> fst ` set ups \<Longrightarrow> fold (\<lambda>(c, v) d. SetValue d c v) ups d c = d c"
proof (induction ups arbitrary: d)
  case Nil
  then show ?case by simp
next
  case (Cons u ups)
  obtain c' v' where u: "u = (c', v')" by (cases u)
  with Cons.prems have "c' \<noteq> c" and "c \<notin> fst ` set ups" by auto
  then have "fold (\<lambda>(c, v) d. SetValue d c v) ups (SetValue d c' v') c = SetValue d c' v' c"
    using Cons.IH by blast
  also have "\<dots> = d c" using \<open>c' \<noteq> c\<close> by (simp add: SetValue_def)
  finally show ?case using u by simp
qed

lemma fold_SetValue_in:
  "distinct (map fst ups) \<Longrightarrow> (c, v) \<in> set ups \<Longrightarrow> fold (\<lambda>(c, v) d. SetValue d c v) ups d c = Some v"
proof (induction ups arbitrary: d)
  case Nil
  then show ?case by simp
next
  case (Cons u ups)
  show ?case
  proof (cases "u = (c, v)")
    case True
    with Cons.prems have "c \<notin> fst ` set ups" by auto
    moreover have "SetValue d c v c = Some v" by (simp add: SetValue_def)
    ultimately show ?thesis
      using fold_SetValue_other [of c ups "SetValue d c v"] True by simp
  next
    case False
    with Cons show ?thesis by auto
  qed
qed

lemma UpdateRow_apply_Some:
  "UpdateRow_apply t row h ups = (Some e, h') \<Longrightarrow> class_of e = SchemaError"
  by (induction ups arbitrary: h) (auto split: option.splits DataType.splits val.splits)

lemma unique_scan_others_Some:
  "unique_scan_others h row c v rows = Some e \<Longrightarrow>
     e = UniqueViolation c v \<and> v \<noteq> VNil \<and> (\<exists>r \<in> set rows. r \<noteq> row \<and> GetValue (h r) c = v)"
  by (induction rows) (auto simp: Let_def split: if_splits)

lemma UpdateRow_unique_Some:
  "UpdateRow_unique h rows row cols = Some e \<Longrightarrow>
     \<exists>col \<in> set cols. col_Unique col \<and> \<not> col_PrimaryKey col
        \<and> e = UniqueViolation (col_Name col) (GetValue (h row) (col_Name col))
        \<and> GetValue (h row) (col_Name col) \<noteq> VNil
        \<and> (\<exists>r \<in> set rows. r \<noteq> row \<and> GetValue (h r) (col_Name col) = GetValue (h row) (col_Name col))"
  by (induction cols) (auto split: if_splits option.splits dest: unique_scan_others_Some)

text \<open>
  C6. When \<^verbatim>\<open>UpdateRow\<close> returns a ConstraintError, the row was found, every update had
  passed its checks and was written to the row (the store returned is the old one with all
  updates applied to that row, so with distinct column names the row holds each new value),
  and the error is the unique violation of a unique column that is not the primary key, whose
  new value, not \<^verbatim>\<open>nil\<close>, another row of the table holds: the values stay, nothing is
  rolled back.
\<close>

theorem C6_update_no_rollback:
  assumes "UpdateRow h t pkValue updates = (Some e, h')" and "class_of e = ConstraintError"
  shows "\<exists>row. FindRowByPrimaryKey t pkValue = Some row
           \<and> UpdateRow_apply t row h updates = (None, h')
           \<and> h' = h(row := fold (\<lambda>(c, v) d. SetValue d c v) updates (h row))
           \<and> (distinct (map fst updates) \<longrightarrow> (\<forall>(c, v) \<in> set updates. h' row c = Some v))
           \<and> (\<exists>col \<in> set (tbl_Columns t). col_Unique col \<and> \<not> col_PrimaryKey col
                 \<and> e = UniqueViolation (col_Name col) (GetValue (h' row) (col_Name col))
                 \<and> GetValue (h' row) (col_Name col) \<noteq> VNil
                 \<and> (\<exists>r \<in> set (tbl_Rows t). r \<noteq> row
                       \<and> GetValue (h' r) (col_Name col) = GetValue (h' row) (col_Name col)))"
proof -
  from assms obtain row where row: "FindRowByPrimaryKey t pkValue = Some row"
    by (auto simp: UpdateRow_def split: option.splits)
  obtain r1 h1 where ap: "UpdateRow_apply t row h updates = (r1, h1)"
    by (cases "UpdateRow_apply t row h updates")
  have "r1 = None"
  proof (cases r1)
    case None
    then show ?thesis .
  next
    case (Some e1)
    with assms row ap have "e = e1" by (simp add: UpdateRow_def)
    with Some ap UpdateRow_apply_Some [of t row h updates e1 h1] assms(2) show ?thesis by simp
  qed
  with assms(1) row ap have h1: "h1 = h'"
    and u: "UpdateRow_unique h' (tbl_Rows t) row (tbl_Columns t) = Some e"
    by (auto simp: UpdateRow_def)
  from ap \<open>r1 = None\<close> h1 have ap': "UpdateRow_apply t row h updates = (None, h')" by simp
  note hh = UpdateRow_apply_None [OF ap']
  have "distinct (map fst updates) \<longrightarrow> (\<forall>(c, v) \<in> set updates. h' row c = Some v)"
    using hh by (auto simp: fold_SetValue_in)
  with row ap' hh UpdateRow_unique_Some [OF u] show ?thesis by blast
qed

theorem C6_update_no_rollback_witness:
  "UpdateRow ex_heap ex_accounts2 (VInt 2) [(''email'', VString ''a'')] =
     (Some (UniqueViolation ''email'' (VString ''a'')), ex_heap(1 := ex_account 2 (VString ''a'')))
   \<and> FindRowByPrimaryKey ex_accounts2 (VInt 2) = Some 1
   \<and> (ex_heap(1 := ex_account 2 (VString ''a''))) 1 ''email'' = Some (VString ''a'')
   \<and> ex_heap 1 ''email'' = Some (VString ''b'')"
proof -
  have a: "UpdateRow ex_heap ex_accounts2 (VInt 2) [(''email'', VString ''a'')] =
     (Some (UniqueViolation ''email'' (VString ''a'')), ex_heap(1 := ex_account 2 (VString ''a'')))"
    by (simp add: UpdateRow_def FindRowByPrimaryKey_def SetValue_def ex_defs GetValue_def)
  have b: "ex_heap 1 ''email'' = Some (VString ''b'')" by (simp add: ex_defs)
  have c: "FindRowByPrimaryKey ex_accounts2 (VInt 2) = Some 1"
    by (simp add: FindRowByPrimaryKey_def ex_defs)
  have d: "class_of (UniqueViolation ''email'' (VString ''a'')) = ConstraintError" by simp
  have e: "(ex_heap(1 := ex_account 2 (VString ''a''))) 1 ''email'' = Some (VString ''a'')"
    by (simp add: ex_account_def)
  show ?thesis
    using C6_update_no_rollback [of ex_heap ex_accounts2 "VInt 2" "[(''email'', VString ''a'')]"
        "UniqueViolation ''email'' (VString ''a'')" "ex_heap(1 := ex_account 2 (VString ''a''))",
        OF a d] a b c e
    by blast
qed

text \<open>
  C9 as stated fails where another row is indexed under the new key: in the accounts table
  with the rows (1, a) and (2, b), the update of key 1 that sets \<^verbatim>\<open>id\<close> to 2 succeeds,
  and the lookup of 2 is not absent: it returns the other row, at address 1.
\<close>

theorem C9_update_primary_key_counterexample:
  "FindRowByPrimaryKey ex_accounts2 (VInt 1) = Some 0
   \<and> fst (UpdateRow ex_heap ex_accounts2 (VInt 1) [(''id'', VInt 2)]) = None
   \<and> FindRowByPrimaryKey ex_accounts2 (VInt 2) = Some 1"
  by (simp add: UpdateRow_def FindRowByPrimaryKey_def SetValue_def ex_defs GetValue_def)

text \<open>
  C9, amended. \<^verbatim>\<open>UpdateRow\<close> assigns no field of the table (the model returns the store
  only), so the index after the call is the index before it. After a successful update of
  key \<open>k\<close> that sets the primary-key column to \<open>k'\<close>, other than \<open>k\<close>, the lookup of \<open>k\<close> still
  returns the row, which now carries \<open>k'\<close>; the lookup of \<open>k'\<close> returns what the index held
  under \<open>k'\<close> before the update, which is absent when no row was indexed under \<open>k'\<close>.
\<close>

theorem C9_update_primary_key:
  assumes "UpdateRow h t k updates = (None, h')"
    and "distinct (map fst updates)" and "(tbl_PrimaryKey t, k') \<in> set updates" and "k' \<noteq> k"
  shows "\<exists>row. FindRowByPrimaryKey t k = Some row
           \<and> tbl_index t k = Some row
           \<and> GetValue (h' row) (tbl_PrimaryKey t) = k'
           \<and> FindRowByPrimaryKey t k' = tbl_index t k'
           \<and> (tbl_index t k' = None \<longrightarrow> FindRowByPrimaryKey t k' = None)"
proof -
  from assms(1) obtain row where row: "FindRowByPrimaryKey t k = Some row"
    by (auto simp: UpdateRow_def split: option.splits)
  then have pk: "tbl_PrimaryKey t \<noteq> []" and idx: "tbl_index t k = Some row"
    by (auto simp: FindRowByPrimaryKey_def split: if_splits)
  from assms(1) row have "UpdateRow_apply t row h updates = (None, h')"
    by (auto simp: UpdateRow_def split: option.splits prod.splits)
  from UpdateRow_apply_None [OF this]
  have "h' row (tbl_PrimaryKey t) = Some k'"
    using fold_SetValue_in [OF assms(2,3)] by simp
  then have "GetValue (h' row) (tbl_PrimaryKey t) = k'"
    by (simp add: GetValue_def)
  with row pk idx show ?thesis
    by (simp add: FindRowByPrimaryKey_def)
qed

theorem C9_update_primary_key_witness:
  "UpdateRow ex_heap ex_accounts2 (VInt 1) [(''id'', VInt 7)]
     = (None, ex_heap(0 := ex_account 7 (VString ''a'')))
   \<and> FindRowByPrimaryKey ex_accounts2 (VInt 1) = Some 0
   \<and> GetValue ((ex_heap(0 := ex_account 7 (VString ''a''))) 0) ''id'' = VInt 7
   \<and> FindRowByPrimaryKey ex_accounts2 (VInt 7) = None"
proof -
  have a: "UpdateRow ex_heap ex_accounts2 (VInt 1) [(''id'', VInt 7)]
     = (None, ex_heap(0 := ex_account 7 (VString ''a'')))"
    by (simp add: UpdateRow_def FindRowByPrimaryKey_def SetValue_def ex_defs GetValue_def fun_eq_iff)
  have b: "tbl_PrimaryKey ex_accounts2 = ''id''" "tbl_index ex_accounts2 (VInt 7) = None"
    "tbl_index ex_accounts2 (VInt 1) = Some 0"
    by (simp_all add: ex_defs)
  show ?thesis
    using C9_update_primary_key [of ex_heap ex_accounts2 "VInt 1" "[(''id'', VInt 7)]"
        "ex_heap(0 := ex_account 7 (VString ''a''))" "VInt 7"] a b
    by (auto simp: GetValue_def ex_account_def)
qed

section \<open>SELECT with a predicate\<close>

lemma string_less_irrefl: "\<not> string_less s s"
  by (induction s) auto

lemma string_less_asym: "string_less a b \<Longrightarrow> \<not> string_less b a"
  by (induction a b rule: string_less.induct) auto

lemma compareOrdered_greater: "(compareOrdered a b > 0) = strictly_greater a b"
  by (cases a; cases b) (auto simp: strictly_greater_def dest: string_less_asym)

text \<open>
  C7. For \<^verbatim>\<open>SELECT * FROM t WHERE col op literal\<close> (the column as a plain or qualified
  identifier): with \<^verbatim>\<open>=\<close> the result holds, in row order, exactly the rows whose value in
  \<open>col\<close> equals the literal in type and value; with \<^verbatim>\<open>>\<close> exactly the rows whose value is
  strictly greater (two Integers or two Texts); and with \<^verbatim>\<open>>\<close>, when no row's value
  forms an Integer pair or a Text pair with the literal, the result is the empty row set and
  no error.
\<close>

theorem C7_predicate_filtering:
  assumes "db (sel_TableName stmt) = Some t"
    and "sel_Columns stmt = [StarExpression]" and "sel_Join stmt = None"
    and "sel_Where stmt = Some (BinaryExpression left operator (Literal lit d))"
    and "extractColumnName left = Inr col"
  shows "(operator = ''='' \<longrightarrow>
            ExecuteSelect h db stmt =
              Inr \<lparr>rs_Columns = GetColumnNames t,
                   rs_Rows = map (\<lambda>row. map (GetValue (h row)) (GetColumnNames t))
                               (filter (\<lambda>row. GetValue (h row) col = lit) (tbl_Rows t))\<rparr>)
       \<and> (operator = ''>'' \<longrightarrow>
            ExecuteSelect h db stmt =
              Inr \<lparr>rs_Columns = GetColumnNames t,
                   rs_Rows = map (\<lambda>row. map (GetValue (h row)) (GetColumnNames t))
                               (filter (\<lambda>row. strictly_greater (GetValue (h row) col) lit) (tbl_Rows t))\<rparr>)
       \<and> (operator = ''>'' \<and>
            (\<forall>row \<in> set (tbl_Rows t).
                 \<not> (\<exists>x y. GetValue (h row) col = VInt x \<and> lit = VInt y)
               \<and> \<not> (\<exists>x y. GetValue (h row) col = VString x \<and> lit = VString y)) \<longrightarrow>
            ExecuteSelect h db stmt = Inr \<lparr>rs_Columns = GetColumnNames t, rs_Rows = []\<rparr>)"
proof -
  have w: "whereCondition_of (sel_Where stmt) =
             Inr (\<lambda>row. compareValues (GetValue row col) lit operator)"
    using assms(4,5) by (simp add: whereCondition_of_def buildBinaryCondition_def)
  have e: "ExecuteSelect h db stmt =
      Inr \<lparr>rs_Columns = GetColumnNames t,
           rs_Rows = map (\<lambda>row. map (GetValue (h row)) (GetColumnNames t))
                       (filter (\<lambda>row. compareValues (GetValue (h row) col) lit operator) (tbl_Rows t))\<rparr>"
    using assms(1-3) w by (simp add: ExecuteSelect_def select_columnNames_def SelectRows_def)
  have eq: "operator = ''='' \<Longrightarrow> compareValues a lit operator = (a = lit)" for a
    by (simp add: compareValues_def)
  have gt: "operator = ''>'' \<Longrightarrow> compareValues a lit operator = strictly_greater a lit" for a
    by (simp add: compareValues_def compareOrdered_greater)
  have none: "filter (\<lambda>row. strictly_greater (GetValue (h row) col) lit) (tbl_Rows t) = []"
    if "\<forall>row \<in> set (tbl_Rows t).
                 \<not> (\<exists>x y. GetValue (h row) col = VInt x \<and> lit = VInt y)
               \<and> \<not> (\<exists>x y. GetValue (h row) col = VString x \<and> lit = VString y)"
    using that by (auto simp: filter_empty_conv strictly_greater_def split: val.splits)
  show ?thesis
    using e eq gt none by simp
qed

theorem C7_predicate_filtering_witness:
  "ExecuteSelect ex_heap ex_db \<lparr>sel_TableName = ''users'', sel_Columns = [StarExpression],
     sel_Where = Some (BinaryExpression (Identifier ''age'') ''>'' (Literal (VInt 25) DATATYPE_INTEGER)),
     sel_Join = None\<rparr>
   = Inr \<lparr>rs_Columns = [''id'', ''name'', ''age''], rs_Rows = [[VInt 2, VString ''Bob'', VInt 30]]\<rparr>
   \<and> ExecuteSelect ex_heap ex_db \<lparr>sel_TableName = ''users'', sel_Columns = [StarExpression],
     sel_Where = Some (BinaryExpression (Identifier ''name'') ''='' (Literal (VString ''Alice'') DATATYPE_TEXT)),
     sel_Join = None\<rparr>
   = Inr \<lparr>rs_Columns = [''id'', ''name'', ''age''], rs_Rows = [[VInt 1, VString ''Alice'', VInt 25]]\<rparr>
   \<and> ExecuteSelect ex_heap ex_db \<lparr>sel_TableName = ''users'', sel_Columns = [StarExpression],
     sel_Where = Some (BinaryExpression (Identifier ''name'') ''>'' (Literal (VInt 0) DATATYPE_INTEGER)),
     sel_Join = None\<rparr>
   = Inr \<lparr>rs_Columns = [''id'', ''name'', ''age''], rs_Rows = []\<rparr>"
proof -
  have a: "ex_db ''users'' = Some ex_users" by (simp add: ex_defs)
  have c: "GetColumnNames ex_users = [''id'', ''name'', ''age'']" by (simp add: GetColumnNames_def ex_defs)
  have r: "tbl_Rows ex_users = [10, 11]" by (simp add: ex_defs)
  have v: "GetValue (ex_heap 10) ''id'' = VInt 1" "GetValue (ex_heap 10) ''name'' = VString ''Alice''"
    "GetValue (ex_heap 10) ''age'' = VInt 25" "GetValue (ex_heap 11) ''id'' = VInt 2"
    "GetValue (ex_heap 11) ''name'' = VString ''Bob''" "GetValue (ex_heap 11) ''age'' = VInt 30"
    by (simp_all add: GetValue_def ex_defs)
  show ?thesis
    using C7_predicate_filtering [of ex_db "\<lparr>sel_TableName = ''users'', sel_Columns = [StarExpression],
       sel_Where = Some (BinaryExpression (Identifier ''age'') ''>'' (Literal (VInt 25) DATATYPE_INTEGER)),
       sel_Join = None\<rparr>" ex_users "Identifier ''age''" "''>''" "VInt 25" DATATYPE_INTEGER "''age''" ex_heap]
      C7_predicate_filtering [of ex_db "\<lparr>sel_TableName = ''users'', sel_Columns = [StarExpression],
       sel_Where = Some (BinaryExpression (Identifier ''name'') ''='' (Literal (VString ''Alice'') DATATYPE_TEXT)),
       sel_Join = None\<rparr>" ex_users "Identifier ''name''" "''=''" "VString ''Alice''" DATATYPE_TEXT "''name''" ex_heap]
      C7_predicate_filtering [of ex_db "\<lparr>sel_TableName = ''users'', sel_Columns = [StarExpression],
       sel_Where = Some (BinaryExpression (Identifier ''name'') ''>'' (Literal (VInt 0) DATATYPE_INTEGER)),
       sel_Join = None\<rparr>" ex_users "Identifier ''name''" "''>''" "VInt 0" DATATYPE_INTEGER "''name''" ex_heap]
      a
    by (simp add: c r v strictly_greater_def)
qed

section \<open>SELECT with a JOIN\<close>

lemma join_inner_eq:
  "join_inner h ln rn x y a bs =
     map (\<lambda>b. map (GetValue (h a)) ln @ map (GetValue (h b)) rn)
       (filter (\<lambda>b. GetValue (h a) x = GetValue (h b) y) bs)"
  by (induction bs) auto

lemma join_outer_eq:
  "join_outer h ln rn x y as bs =
     concat (map (\<lambda>a. map (\<lambda>b. map (GetValue (h a)) ln @ map (GetValue (h b)) rn)
                         (filter (\<lambda>b. GetValue (h a) x = GetValue (h b) y) bs)) as)"
  by (induction as) (auto simp: join_inner_eq)

text \<open>
  C8. For a SELECT that joins the tables A and B (both exist; the WHERE clause is absent or
  translates): when the operator of ON is not \<^verbatim>\<open>=\<close>, the statement fails with the
  UnsupportedError "only equality joins are supported"; when it is \<^verbatim>\<open>=\<close> on the columns
  \<open>x\<close> and \<open>y\<close>, the result has the columns of A followed by those of B and one row per pair
  of a row of A and a row of B with equal values in \<open>x\<close> and \<open>y\<close>, the values of the left row
  followed by those of the right row, in the order of the nested loop; their number is the sum
  over the rows of A of the number of matching rows of B.
\<close>

theorem C8_equality_join:
  assumes "db (sel_TableName stmt) = Some A" and "sel_Join stmt = Some join"
    and "db (join_TableName join) = Some B"
    and "whereCondition_of (sel_Where stmt) = Inr c"
  shows "(be_Operator (join_On join) \<noteq> ''='' \<longrightarrow>
            ExecuteSelect h db stmt = Inl OnlyEqualityJoins
            \<and> class_of OnlyEqualityJoins = UnsupportedError)
       \<and> (be_Operator (join_On join) = ''=''
            \<and> extractColumnName (be_Left (join_On join)) = Inr x
            \<and> extractColumnName (be_Right (join_On join)) = Inr y \<longrightarrow>
            (\<exists>rs. ExecuteSelect h db stmt = Inr rs
               \<and> rs_Columns rs = GetColumnNames A @ GetColumnNames B
               \<and> rs_Rows rs =
                   concat (map (\<lambda>a. map (\<lambda>b. map (GetValue (h a)) (GetColumnNames A)
                                                @ map (GetValue (h b)) (GetColumnNames B))
                                       (filter (\<lambda>b. GetValue (h a) x = GetValue (h b) y) (tbl_Rows B)))
                             (tbl_Rows A))
               \<and> length (rs_Rows rs) =
                   (\<Sum>a \<leftarrow> tbl_Rows A.
                      length (filter (\<lambda>b. GetValue (h a) x = GetValue (h b) y) (tbl_Rows B)))))"
proof -
  have e: "ExecuteSelect h db stmt = executeJoinSelect h db A join"
    using assms by (simp add: ExecuteSelect_def)
  have len: "length (concat (map (\<lambda>a. map (f a) (filter (P a) bs)) as))
               = (\<Sum>a \<leftarrow> as. length (filter (P a) bs))" for f :: "addr \<Rightarrow> addr \<Rightarrow> val list" and P bs as
    by (induction as) auto
  show ?thesis
    unfolding e using assms(3)
    by (auto simp: executeJoinSelect_def parseJoinCondition_def join_outer_eq len)
qed

theorem C8_equality_join_witness:
  "ExecuteSelect ex_heap ex_db \<lparr>sel_TableName = ''users'', sel_Columns = [StarExpression],
     sel_Where = None,
     sel_Join = Some \<lparr>join_TableName = ''posts'',
       join_On = \<lparr>be_Left = QualifiedIdentifier ''users'' ''id'', be_Operator = ''<'',
                  be_Right = QualifiedIdentifier ''posts'' ''user_id''\<rparr>\<rparr>\<rparr>
     = Inl OnlyEqualityJoins
   \<and> (\<exists>rs. ExecuteSelect ex_heap ex_db \<lparr>sel_TableName = ''users'', sel_Columns = [StarExpression],
     sel_Where = None,
     sel_Join = Some \<lparr>join_TableName = ''posts'',
       join_On = \<lparr>be_Left = QualifiedIdentifier ''users'' ''id'', be_Operator = ''='',
                  be_Right = QualifiedIdentifier ''posts'' ''user_id''\<rparr>\<rparr>\<rparr> = Inr rs
      \<and> rs_Rows rs =
          [[VInt 1, VString ''Alice'', VInt 25, VInt 1, VInt 1, VString ''Hello World''],
           [VInt 1, VString ''Alice'', VInt 25, VInt 3, VInt 1, VString ''Third''],
           [VInt 2, VString ''Bob'', VInt 30, VInt 2, VInt 2, VString ''Second'']]
      \<and> length (rs_Rows rs) = 3)"
proof -
  have a: "ex_db ''users'' = Some ex_users" "ex_db ''posts'' = Some ex_posts" by (simp_all add: ex_defs)
  have c: "GetColumnNames ex_users = [''id'', ''name'', ''age'']"
    "GetColumnNames ex_posts = [''id'', ''user_id'', ''title'']" by (simp_all add: GetColumnNames_def ex_defs)
  have r: "tbl_Rows ex_users = [10, 11]" "tbl_Rows ex_posts = [20, 21, 22]" by (simp_all add: ex_defs)
  have v: "GetValue (ex_heap 10) ''id'' = VInt 1" "GetValue (ex_heap 10) ''name'' = VString ''Alice''"
    "GetValue (ex_heap 10) ''age'' = VInt 25" "GetValue (ex_heap 11) ''id'' = VInt 2"
    "GetValue (ex_heap 11) ''name'' = VString ''Bob''" "GetValue (ex_heap 11) ''age'' = VInt 30"
    "GetValue (ex_heap 20) ''id'' = VInt 1" "GetValue (ex_heap 20) ''user_id'' = VInt 1"
    "GetValue (ex_heap 20) ''title'' = VString ''Hello World''"
    "GetValue (ex_heap 21) ''id'' = VInt 2" "GetValue (ex_heap 21) ''user_id'' = VInt 2"
    "GetValue (ex_heap 21) ''title'' = VString ''Second''"
    "GetValue (ex_heap 22) ''id'' = VInt 3" "GetValue (ex_heap 22) ''user_id'' = VInt 1"
    "GetValue (ex_heap 22) ''title'' = VString ''Third''"
    by (simp_all add: GetValue_def ex_defs)
  show ?thesis
    using C8_equality_join [of ex_db "\<lparr>sel_TableName = ''users'', sel_Columns = [StarExpression],
       sel_Where = None,
       sel_Join = Some \<lparr>join_TableName = ''posts'',
         join_On = \<lparr>be_Left = QualifiedIdentifier ''users'' ''id'', be_Operator = ''<'',
                    be_Right = QualifiedIdentifier ''posts'' ''user_id''\<rparr>\<rparr>\<rparr>" ex_users
       "\<lparr>join_TableName = ''posts'',
         join_On = \<lparr>be_Left = QualifiedIdentifier ''users'' ''id'', be_Operator = ''<'',
                    be_Right = QualifiedIdentifier ''posts'' ''user_id''\<rparr>\<rparr>" ex_posts "\<lambda>row. True"
       ex_heap "''id''" "''user_id''"]
     C8_equality_join [of ex_db "\<lparr>sel_TableName = ''users'', sel_Columns = [StarExpression],
       sel_Where = None,
       sel_Join = Some \<lparr>join_TableName = ''posts'',
         join_On = \<lparr>be_Left = QualifiedIdentifier ''users'' ''id'', be_Operator = ''='',
                    be_Right = QualifiedIdentifier ''posts'' ''user_id''\<rparr>\<rparr>\<rparr>" ex_users
       "\<lparr>join_TableName = ''posts'',
         join_On = \<lparr>be_Left = QualifiedIdentifier ''users'' ''id'', be_Operator = ''='',
                    be_Right = QualifiedIdentifier ''posts'' ''user_id''\<rparr>\<rparr>" ex_posts "\<lambda>row. True"
       ex_heap "''id''" "''user_id''"] a
    by (auto simp: whereCondition_of_def c r v)
qed

text \<open>
  C10 as stated fails: a WHERE clause whose right operand is a column (as in
  \<^verbatim>\<open>WHERE users.id = posts.user_id\<close>) does not translate, and the statement with JOIN and
  this WHERE fails, while the same statement without WHERE returns rows.
\<close>

theorem C10_join_where_counterexample:
  "ExecuteSelect ex_heap ex_db \<lparr>sel_TableName = ''users'', sel_Columns = [StarExpression],
     sel_Where = Some (BinaryExpression (QualifiedIdentifier ''users'' ''id'') ''=''
                         (QualifiedIdentifier ''posts'' ''user_id'')),
     sel_Join = Some \<lparr>join_TableName = ''posts'',
       join_On = \<lparr>be_Left = QualifiedIdentifier ''users'' ''id'', be_Operator = ''='',
                  be_Right = QualifiedIdentifier ''posts'' ''user_id''\<rparr>\<rparr>\<rparr>
     = Inl UnsupportedExpression
   \<and> (\<exists>rs. ExecuteSelect ex_heap ex_db \<lparr>sel_TableName = ''users'', sel_Columns = [StarExpression],
     sel_Where = None,
     sel_Join = Some \<lparr>join_TableName = ''posts'',
       join_On = \<lparr>be_Left = QualifiedIdentifier ''users'' ''id'', be_Operator = ''='',
                  be_Right = QualifiedIdentifier ''posts'' ''user_id''\<rparr>\<rparr>\<rparr> = Inr rs)"
  by (simp add: ExecuteSelect_def whereCondition_of_def buildBinaryCondition_def executeJoinSelect_def
      parseJoinCondition_def ex_defs)

text \<open>
  C10, amended. For a SELECT with a JOIN on an existing table: when its WHERE clause
  translates to a condition, the result is that of the same statement without the WHERE (the
  condition is built and never applied); when the WHERE does not translate, the statement
  fails with the translation error.
\<close>

theorem C10_join_ignores_where:
  assumes "sel_Join stmt = Some join" and "db (sel_TableName stmt) = Some t"
  shows "ExecuteSelect h db stmt =
           (case whereCondition_of (sel_Where stmt) of
              Inl e \<Rightarrow> Inl e
            | Inr c \<Rightarrow> ExecuteSelect h db (stmt\<lparr>sel_Where := None\<rparr>))"
  using assms by (simp add: ExecuteSelect_def whereCondition_of_def split: sum.splits)

theorem C10_join_ignores_where_witness:
  "ExecuteSelect ex_heap ex_db \<lparr>sel_TableName = ''users'', sel_Columns = [StarExpression],
     sel_Where = Some (BinaryExpression (Identifier ''age'') ''>'' (Literal (VInt 25) DATATYPE_INTEGER)),
     sel_Join = Some \<lparr>join_TableName = ''posts'',
       join_On = \<lparr>be_Left = QualifiedIdentifier ''users'' ''id'', be_Operator = ''='',
                  be_Right = QualifiedIdentifier ''posts'' ''user_id''\<rparr>\<rparr>\<rparr>
   = ExecuteSelect ex_heap ex_db \<lparr>sel_TableName = ''users'', sel_Columns = [StarExpression],
     sel_Where = None,
     sel_Join = Some \<lparr>join_TableName = ''posts'',
       join_On = \<lparr>be_Left = QualifiedIdentifier ''users'' ''id'', be_Operator = ''='',
                  be_Right = QualifiedIdentifier ''posts'' ''user_id''\<rparr>\<rparr>\<rparr>"
proof -
  have a: "ex_db ''users'' = Some ex_users" by (simp add: ex_defs)
  show ?thesis
    using C10_join_ignores_where [of "\<lparr>sel_TableName = ''users'', sel_Columns = [StarExpression],
     sel_Where = Some (BinaryExpression (Identifier ''age'') ''>'' (Literal (VInt 25) DATATYPE_INTEGER)),
     sel_Join = Some \<lparr>join_TableName = ''posts'',
       join_On = \<lparr>be_Left = QualifiedIdentifier ''users'' ''id'', be_Operator = ''='',
                  be_Right = QualifiedIdentifier ''posts'' ''user_id''\<rparr>\<rparr>\<rparr>"
      "\<lparr>join_TableName = ''posts'',
       join_On = \<lparr>be_Left = QualifiedIdentifier ''users'' ''id'', be_Operator = ''='',
                  be_Right = QualifiedIdentifier ''posts'' ''user_id''\<rparr>\<rparr>" ex_db ex_users ex_heap] a
    by (simp add: whereCondition_of_def buildBinaryCondition_def)
qed

section \<open>Parsing a malformed CREATE TABLE\<close>

text \<open>
  C5 on the code. \<^verbatim>\<open>ParseStatement\<close> hands a text whose first token is CREATE to
  \<^verbatim>\<open>parseCreateStatement\<close>. In \<^verbatim>\<open>CREATE TABLE t (a INTEGER, b FOO)\<close> the type of the
  second column is unknown: \<^verbatim>\<open>parseDataType\<close> has consumed \<^verbatim>\<open>FOO\<close> when it returns its
  error, \<^verbatim>\<open>parseColumnDefinitions\<close> leaves its loop with the one column read so far and
  drops the error, and the closing parenthesis is the next token. The parser returns a
  statement with the column \<^verbatim>\<open>a\<close> alone, no error and no diagnostic.
\<close>

theorem C5_partial_create_table:
  "tok_Type (p_currentToken (NewParser (NewLexer ''CREATE TABLE t (a INTEGER, b FOO)''))) = TOKEN_CREATE
   \<and> fst (parseCreateStatement (NewParser (NewLexer ''CREATE TABLE t (a INTEGER, b FOO)'')))
       = Inr \<lparr>ct_TableName = ''t'',
              ct_Columns = [\<lparr>cd_Name = ''a'', cd_DataType = DATATYPE_INTEGER,
                             cd_PrimaryKey = False, cd_Unique = False\<rparr>]\<rparr>
   \<and> p_errors (snd (parseCreateStatement (NewParser (NewLexer ''CREATE TABLE t (a INTEGER, b FOO)'')))) = []"
  by (simp add: lexer_defs parser_defs parseColumnDefinitions_loop.simps)

text \<open>The well-formed statement next to it parses to both columns.\<close>

lemma parse_create_table_example:
  "fst (parseCreateStatement (NewParser (NewLexer ''CREATE TABLE t (a INTEGER, b TEXT)'')))
       = Inr \<lparr>ct_TableName = ''t'',
              ct_Columns = [\<lparr>cd_Name = ''a'', cd_DataType = DATATYPE_INTEGER,
                             cd_PrimaryKey = False, cd_Unique = False\<rparr>,
                            \<lparr>cd_Name = ''b'', cd_DataType = DATATYPE_TEXT,
                             cd_PrimaryKey = False, cd_Unique = False\<rparr>]\<rparr>"
  by (simp add: lexer_defs parser_defs parseColumnDefinitions_loop.simps)

section \<open>Round trip of the persistence codec\<close>

declare validateValueType.simps [simp del]

declare parseDataType_csv.simps [simp del]

subsection \<open>Split and Join\<close>

lemma Split_not_Nil: "Split s sep \<noteq> []"
  by (induction s) (auto split: list.splits)

lemma Split_no_sep: "sep \<notin> set s \<Longrightarrow> Split s sep = [s]"
  by (induction s) auto

lemma Split_append_sep: "sep \<notin> set x \<Longrightarrow> Split (x @ sep # rest) sep = x # Split rest sep"
  by (induction x) auto

lemma Split_Join:
  "xs \<noteq> [] \<Longrightarrow> \<forall>x \<in> set xs. sep \<notin> set x \<Longrightarrow> Split (Join xs [sep]) sep = xs"
proof (induction xs "[sep]" rule: Join.induct)
  case 1
  then show ?case by simp
next
  case (2 x)
  then show ?case by (simp add: Split_no_sep)
next
  case (3 x y ys)
  then show ?case by (simp add: Split_append_sep)
qed

lemma Join_snoc: "Join (xs @ [x]) sep = (if xs = [] then x else Join xs sep @ sep @ x)"
  by (induction xs sep rule: Join.induct) auto

lemma set_Join: "set (Join xs sep) \<subseteq> \<Union> (set ` set xs) \<union> set sep"
  by (induction xs sep rule: Join.induct) auto

subsection \<open>TrimSpace\<close>

lemma leading_space_None:
  "leading_space runes s = None \<longleftrightarrow> (\<forall>p \<in> set runes. p \<noteq> [] \<longrightarrow> take (length p) s \<noteq> p)"
  by (auto simp: leading_space_def find_None_iff)

lemma leading_space_Some:
  "leading_space runes s = Some p \<Longrightarrow> p \<noteq> [] \<and> take (length p) s = p"
  by (auto simp: leading_space_def find_Some_iff)

lemma trim_left_None: "leading_space runes s = None \<Longrightarrow> trim_left runes s = s"
  by simp

lemma trim_left_length: "length (trim_left runes s) \<le> length s"
proof (induction runes s rule: trim_left.induct)
  case (1 runes s)
  show ?case
  proof (cases "leading_space runes s")
    case None
    then show ?thesis by simp
  next
    case (Some p)
    with 1 have "length (trim_left runes (drop (length p) s)) \<le> length (drop (length p) s)"
      by simp
    with Some show ?thesis by simp
  qed
qed

lemma trim_left_fixed: "trim_left runes s = s \<Longrightarrow> leading_space runes s = None"
proof (rule ccontr)
  assume a: "trim_left runes s = s" and "leading_space runes s \<noteq> None"
  then obtain p where p: "leading_space runes s = Some p" by auto
  then have q: "p \<noteq> []" "take (length p) s = p" using leading_space_Some by auto
  then have "s \<noteq> []" by auto
  have "length (trim_left runes s) \<le> length (drop (length p) s)"
    using p trim_left_length [of runes "drop (length p) s"] by simp
  also have "\<dots> < length s" using q \<open>s \<noteq> []\<close> by simp
  finally show False using a by simp
qed

lemma TrimSpace_id:
  "leading_space space_runes s = None \<Longrightarrow> leading_space (map rev space_runes) (rev s) = None
   \<Longrightarrow> TrimSpace s = s"
  by (simp add: TrimSpace_def)

lemma TrimSpace_fixed:
  assumes "TrimSpace s = s"
  shows "leading_space space_runes s = None" and "leading_space (map rev space_runes) (rev s) = None"
proof -
  let ?l = "trim_left space_runes s"
  have "length s = length (trim_left (map rev space_runes) (rev ?l))"
    using assms by (metis TrimSpace_def length_rev)
  also have "\<dots> \<le> length ?l" using trim_left_length [of _ "rev ?l"] by simp
  finally have "length ?l = length s" using trim_left_length [of space_runes s] by simp
  have l: "?l = s"
  proof (rule ccontr)
    assume "?l \<noteq> s"
    then obtain p where p: "leading_space space_runes s = Some p"
      by (cases "leading_space space_runes s") auto
    then have q: "p \<noteq> []" "take (length p) s = p" using leading_space_Some by auto
    then have "s \<noteq> []" by auto
    have "length ?l \<le> length (drop (length p) s)"
      using p trim_left_length [of space_runes "drop (length p) s"] by simp
    also have "\<dots> < length s" using q \<open>s \<noteq> []\<close> by simp
    finally show False using \<open>length ?l = length s\<close> by simp
  qed
  then show "leading_space space_runes s = None" by (rule trim_left_fixed)
  from assms l have "trim_left (map rev space_runes) (rev s) = rev s"
    by (metis TrimSpace_def rev_rev_ident)
  then show "leading_space (map rev space_runes) (rev s) = None" by (rule trim_left_fixed)
qed

text \<open>A byte that occurs in no space: appending it, and anything after it, to a string
  does not make the string start with a space.\<close>

lemma leading_space_append:
  assumes "leading_space runes f = None" and "\<forall>p \<in> set runes. c \<notin> set p"
  shows "leading_space runes (f @ c # rest) = None"
  unfolding leading_space_None
proof (intro ballI impI notI)
  fix p assume p: "p \<in> set runes" "p \<noteq> []" "take (length p) (f @ c # rest) = p"
  show False
  proof (cases "length p \<le> length f")
    case True
    with p(3) have "take (length p) f = p" by simp
    with assms(1) p(1,2) show False by (auto simp: leading_space_None)
  next
    case False
    then have "take (length p) (f @ c # rest) = f @ c # take (length p - Suc (length f)) rest"
      by (simp add: take_Cons')
    with p(3) have "c \<in> set p" by (metis in_set_conv_decomp)
    with assms(2) p(1) show False by blast
  qed
qed

lemma plain_char_leading: "plain_char c \<Longrightarrow> leading_space space_runes (c # s) = None"
  by (auto simp: leading_space_None space_runes_def plain_char_def)

lemma plain_char_trailing:
  "plain_char c \<Longrightarrow> leading_space (map rev space_runes) (c # s) = None"
  by (auto simp: leading_space_None space_runes_def plain_char_def)

lemma plain_char_not_in_space: "plain_char c \<Longrightarrow> \<forall>p \<in> set space_runes. c \<notin> set p"
  by (auto simp: space_runes_def plain_char_def)

lemma plain_char_not_in_space_rev: "plain_char c \<Longrightarrow> \<forall>p \<in> set (map rev space_runes). c \<notin> set p"
  using plain_char_not_in_space by auto


subsection \<open>Decimal numbers\<close>

declare nat_to_string.simps [simp del]

lemma digit_char_props:
  "d < 10 \<Longrightarrow> (of_char (digit_char d) :: nat) = 48 + d"
  "d < 10 \<Longrightarrow> is_digit_char (digit_char d)"
  "d < 10 \<Longrightarrow> plain_char (digit_char d)"
  by (simp_all add: digit_char_def is_digit_char_def plain_char_def)

lemma nat_to_string_not_Nil: "nat_to_string n \<noteq> []"
  by (subst nat_to_string.simps) simp

lemma nat_to_string_digits: "list_all is_digit_char (nat_to_string n)"
proof (induction n rule: nat_to_string.induct)
  case (1 n)
  then show ?case
    by (subst nat_to_string.simps) (simp add: digit_char_props)
qed

lemma digits_value_snoc: "digits_value (ds @ [c]) = digits_value ds * 10 + (of_char c - 48)"
  by (simp add: digits_value_def)

lemma digits_value_nat_to_string: "digits_value (nat_to_string n) = n"
proof (induction n rule: nat_to_string.induct)
  case (1 n)
  show ?case
  proof (cases "n < 10")
    case True
    then show ?thesis
      by (subst nat_to_string.simps) (simp add: digits_value_def digit_char_props)
  next
    case False
    with 1 have "digits_value (nat_to_string (n div 10)) = n div 10" by simp
    with False show ?thesis
      by (subst nat_to_string.simps) (simp add: digits_value_snoc digit_char_props)
  qed
qed

lemma is_digit_plain: "is_digit_char c \<Longrightarrow> plain_char c"
  by (auto simp: is_digit_char_def plain_char_def Let_def)

lemma is_digit_not_sign: "is_digit_char c \<Longrightarrow> c \<noteq> CHR ''-'' \<and> c \<noteq> CHR ''+''"
  by (auto simp: is_digit_char_def)

lemma is_digit_not_sep: "is_digit_char c \<Longrightarrow> c \<noteq> CHR '','' \<and> c \<noteq> CHR 0x22 \<and> c \<noteq> CHR 0x0A"
  by (auto simp: is_digit_char_def)

lemma nat_to_string_hd: "is_digit_char (hd (nat_to_string n))"
  using nat_to_string_digits [of n] nat_to_string_not_Nil [of n]
  by (cases "nat_to_string n") auto

lemma nat_to_string_last: "is_digit_char (last (nat_to_string n))"
  using nat_to_string_digits [of n] nat_to_string_not_Nil [of n]
  by (simp add: list_all_iff)

lemma Atoi_int_to_string: "Atoi (int_to_string (sint w)) = Some (w :: 64 word)"
proof -
  have range: "- (2 ^ 63) \<le> sint w" "sint w < 2 ^ 63"
    using sint_ge [of w] sint_lt [of w] by simp_all
  show ?thesis
  proof (cases "sint w < 0")
    case True
    then have s: "int_to_string (sint w) = CHR ''-'' # nat_to_string (nat (- sint w))"
      by (simp add: int_to_string_def)
    have "- int (digits_value (nat_to_string (nat (- sint w)))) = sint w"
      using True by (simp add: digits_value_nat_to_string)
    then show ?thesis
      using range nat_to_string_not_Nil nat_to_string_digits
      by (simp add: s Atoi_def Let_def)
  next
    case False
    then have s: "int_to_string (sint w) = nat_to_string (nat (sint w))"
      by (simp add: int_to_string_def)
    have h: "hd (nat_to_string (nat (sint w))) \<noteq> CHR ''-''" "hd (nat_to_string (nat (sint w))) \<noteq> CHR ''+''"
      using nat_to_string_hd [of "nat (sint w)"] is_digit_not_sign by blast+
    have "int (digits_value (nat_to_string (nat (sint w)))) = sint w"
      using False by (simp add: digits_value_nat_to_string)
    then show ?thesis
      using range nat_to_string_not_Nil nat_to_string_digits h
      by (simp add: s Atoi_def Let_def)
  qed
qed

lemma int_to_string_props:
  "int_to_string i \<noteq> []"
  "plain_char (hd (int_to_string i))"
  "plain_char (last (int_to_string i))"
  "CHR '','' \<notin> set (int_to_string i)"
  "CHR 0x22 \<notin> set (int_to_string i)"
  "CHR 0x0A \<notin> set (int_to_string i)"
proof -
  have d: "\<forall>c \<in> set (nat_to_string n). is_digit_char c" for n
    using nat_to_string_digits [of n] by (simp add: list_all_iff)
  show "int_to_string i \<noteq> []"
    by (simp add: int_to_string_def nat_to_string_not_Nil)
  show "plain_char (hd (int_to_string i))"
    using nat_to_string_hd is_digit_plain by (simp add: int_to_string_def plain_char_def)
  show "plain_char (last (int_to_string i))"
    using nat_to_string_last is_digit_plain by (simp add: int_to_string_def nat_to_string_not_Nil)
  show "CHR '','' \<notin> set (int_to_string i)" "CHR 0x22 \<notin> set (int_to_string i)"
    "CHR 0x0A \<notin> set (int_to_string i)"
    using d is_digit_not_sep by (auto simp: int_to_string_def)
qed

subsection \<open>The fields of a data line\<close>

lemma parseCSVLine_loop_plain:
  "CHR 0x22 \<notin> set s \<Longrightarrow> CHR '','' \<notin> set s
   \<Longrightarrow> parseCSVLine_loop False cur vals (s @ rest) = parseCSVLine_loop False (cur @ s) vals rest"
  by (induction s arbitrary: cur) auto

lemma parseCSVLine_loop_quoted:
  "rest = [] \<or> hd rest \<noteq> CHR 0x22
   \<Longrightarrow> parseCSVLine_loop True cur vals (double_quotes s @ CHR 0x22 # rest)
       = parseCSVLine_loop False (cur @ s) vals rest"
proof (induction s arbitrary: cur)
  case Nil
  then show ?case by auto
next
  case (Cons c s)
  show ?case
  proof (cases "c = CHR 0x22")
    case True
    with Cons show ?thesis by simp
  next
    case False
    with Cons show ?thesis by simp
  qed
qed

lemma formatValue_field:
  assumes "v \<noteq> VNil" and "rest = [] \<or> hd rest = CHR '',''"
  shows "parseCSVLine_loop False cur vals (formatValue v @ rest)
           = parseCSVLine_loop False (cur @ content v) vals rest"
proof (cases v)
  case VNil
  with assms show ?thesis by simp
next
  case (VInt w)
  then show ?thesis
    using int_to_string_props(4,5) [of "sint w"] by (simp add: parseCSVLine_loop_plain)
next
  case (VString s)
  show ?thesis
  proof (cases "CHR '','' \<in> set s \<or> CHR 0x22 \<in> set s")
    case True
    have "rest = [] \<or> hd rest \<noteq> CHR 0x22" using assms(2) by auto
    from parseCSVLine_loop_quoted [OF this, of cur vals s] True VString show ?thesis
      by simp
  next
    case False
    with VString show ?thesis by (simp add: parseCSVLine_loop_plain)
  qed
next
  case (VBool b)
  then show ?thesis by (cases b) (simp_all add: parseCSVLine_loop_plain)
qed

lemma parseCSVLine_loop_Join:
  "vs \<noteq> [] \<Longrightarrow> VNil \<notin> set vs
   \<Longrightarrow> parseCSVLine_loop False [] vals (Join (map formatValue vs) '','') = vals @ map content vs"
proof (induction vs arbitrary: vals)
  case Nil
  then show ?case by simp
next
  case (Cons v vs)
  show ?case
  proof (cases vs)
    case Nil
    with Cons.prems formatValue_field [of v "[]" "[]" vals] show ?thesis by simp
  next
    case (Cons w ws)
    have "parseCSVLine_loop False [] vals (formatValue v @ CHR '','' # Join (map formatValue vs) '','')
            = parseCSVLine_loop False ([] @ content v) vals (CHR '','' # Join (map formatValue vs) '','')"
      using Cons.prems by (intro formatValue_field) auto
    also have "\<dots> = parseCSVLine_loop False [] (vals @ [content v]) (Join (map formatValue vs) '','')"
      by simp
    also have "\<dots> = (vals @ [content v]) @ map content vs"
      using Cons.IH [of "vals @ [content v]"] Cons.prems Cons by simp
    finally show ?thesis using Cons by simp
  qed
qed


subsection \<open>The values of a data line\<close>

lemma TrimSpace_plain:
  assumes "s \<noteq> []" and "plain_char (hd s)" and "plain_char (last s)"
  shows "TrimSpace s = s"
proof -
  obtain c cs where c: "s = c # cs" using assms(1) by (cases s) auto
  obtain bs b where b: "s = bs @ [b]" using assms(1) by (metis rev_exhaust)
  have "leading_space space_runes (c # cs) = None"
    using assms(2) c plain_char_leading by simp
  then have l: "leading_space space_runes s = None" using c by simp
  have "leading_space (map rev space_runes) (b # rev bs) = None"
    using assms(3) b plain_char_trailing by simp
  then have t: "leading_space (map rev space_runes) (rev s) = None" using b by simp
  from l t show ?thesis by (rule TrimSpace_id)
qed

lemma parseValue_content:
  assumes "validateValueType col v = None" and "in_range (col_DataType col)" and "value_ok v"
  shows "parseValue (content v) (col_DataType col) = Some v"
proof -
  consider (i) w where "col_DataType col = DATATYPE_INTEGER" "v = VInt w"
    | (t) s where "col_DataType col = DATATYPE_TEXT" "v = VString s"
    | (b) x where "col_DataType col = DATATYPE_BOOLEAN" "v = VBool x"
    using assms(1,2) by (auto simp: in_range_def validateValueType.simps split: DataType.splits val.splits)
  then show ?thesis
  proof cases
    case i
    have "TrimSpace (int_to_string (sint w)) = int_to_string (sint w)"
      using int_to_string_props(1-3) by (rule TrimSpace_plain)
    then show ?thesis
      using i int_to_string_props(1) [of "sint w"] by (simp add: parseValue_def Atoi_int_to_string)
  next
    case t
    then have "text_ok s" using assms(3) by (simp add: value_ok_def)
    then have "s \<noteq> []" "TrimSpace s = s" "\<not> (2 \<le> length s \<and> hd s = CHR 0x22 \<and> last s = CHR 0x22)"
      by (simp_all add: text_ok_def)
    then show ?thesis using t by (auto simp: parseValue_def)
  next
    case b
    have "TrimSpace ''true'' = ''true''" "TrimSpace ''false'' = ''false''"
      by (rule TrimSpace_plain; simp add: plain_char_def)+
    then show ?thesis
      using b by (cases x) (simp_all add: parseValue_def ToLower_def lower_char_def)
  qed
qed

lemma validateValueType_not_nil:
  "validateValueType c v = None \<Longrightarrow> in_range (col_DataType c) \<Longrightarrow> v \<noteq> VNil"
  by (cases "col_DataType c") (auto simp: in_range_def validateValueType.simps)

lemma row_ok_value:
  assumes "row_ok cols d" and "c \<in> set cols" and "in_range (col_DataType c)"
  shows "GetValue d (col_Name c) \<noteq> VNil" and "validateValueType c (GetValue d (col_Name c)) = None"
    and "value_ok (GetValue d (col_Name c))" and "d (col_Name c) = Some (GetValue d (col_Name c))"
proof -
  from assms(1,2) obtain v where v: "d (col_Name c) = Some v" "validateValueType c v = None" "value_ok v"
    unfolding row_ok_def by blast
  then have g: "GetValue d (col_Name c) = v" by (simp add: GetValue_def)
  show "GetValue d (col_Name c) \<noteq> VNil"
    using validateValueType_not_nil [OF v(2) assms(3)] g by simp
  show "validateValueType c (GetValue d (col_Name c)) = None" using v(2) g by simp
  show "value_ok (GetValue d (col_Name c))" using v(3) g by simp
  show "d (col_Name c) = Some (GetValue d (col_Name c))" using v(1) g by simp
qed

lemma formatValue_field_ok:
  assumes "v \<noteq> VNil" and "value_ok v"
  shows "formatValue v \<noteq> []"
    and "leading_space space_runes (formatValue v) = None"
    and "leading_space (map rev space_runes) (rev (formatValue v)) = None"
    and "CHR 0x0A \<notin> set (formatValue v)"
proof -
  have plain: "f \<noteq> [] \<Longrightarrow> plain_char (hd f) \<Longrightarrow> plain_char (last f) \<Longrightarrow>
      leading_space space_runes f = None \<and> leading_space (map rev space_runes) (rev f) = None" for f
    using TrimSpace_plain TrimSpace_fixed by blast
  have dq: "set (double_quotes s) \<subseteq> set s \<union> {CHR 0x22}" for s
    by (induction s) auto
  have all: "formatValue v \<noteq> [] \<and> leading_space space_runes (formatValue v) = None
      \<and> leading_space (map rev space_runes) (rev (formatValue v)) = None
      \<and> CHR 0x0A \<notin> set (formatValue v)"
  proof (cases v)
    case VNil
    with assms show ?thesis by simp
  next
    case (VInt w)
    then show ?thesis
      using int_to_string_props [of "sint w"] plain [of "int_to_string (sint w)"] by simp
  next
    case (VString s)
    then have ok: "text_ok s" using assms(2) by (simp add: value_ok_def)
    show ?thesis
    proof (cases "CHR '','' \<in> set s \<or> CHR 0x22 \<in> set s")
      case True
      let ?f = "CHR 0x22 # double_quotes s @ [CHR 0x22]"
      have "plain_char (CHR 0x22)" by (simp add: plain_char_def)
      then have "leading_space space_runes ?f = None \<and> leading_space (map rev space_runes) (rev ?f) = None"
        by (intro plain) simp_all
      moreover have "CHR 0x0A \<notin> set ?f" using ok dq [of s] by (auto simp: text_ok_def)
      ultimately show ?thesis using VString True by simp
    next
      case False
      then show ?thesis using VString ok TrimSpace_fixed [of s] by (simp add: text_ok_def)
    qed
  next
    case (VBool b)
    then show ?thesis
      using plain [of "''true''"] plain [of "''false''"] by (cases b) (simp_all add: plain_char_def)
  qed
  then show "formatValue v \<noteq> []"
    and "leading_space space_runes (formatValue v) = None"
    and "leading_space (map rev space_runes) (rev (formatValue v)) = None"
    and "CHR 0x0A \<notin> set (formatValue v)" by simp_all
qed

lemma comma_plain: "plain_char (CHR '','')"
  by (simp add: plain_char_def)

lemma Join_fields_ok:
  assumes "fs \<noteq> []"
    and "\<forall>f \<in> set fs. f \<noteq> [] \<and> leading_space space_runes f = None
           \<and> leading_space (map rev space_runes) (rev f) = None \<and> CHR 0x0A \<notin> set f"
  shows "Join fs '','' \<noteq> []" and "TrimSpace (Join fs '','') = Join fs '',''"
    and "CHR 0x0A \<notin> set (Join fs '','')"
proof -
  obtain f fs' where fs: "fs = f # fs'" using assms(1) by (cases fs) auto
  obtain gs g where gs: "fs = gs @ [g]" using assms(1) by (metis rev_exhaust)
  have f: "f \<noteq> []" "leading_space space_runes f = None" using assms(2) fs by auto
  have g: "leading_space (map rev space_runes) (rev g) = None" using assms(2) gs by auto
  show ne: "Join fs '','' \<noteq> []"
    using f fs by (cases fs') auto
  have lead: "leading_space space_runes (Join fs '','') = None"
  proof (cases fs')
    case Nil
    with fs f show ?thesis by simp
  next
    case (Cons a as)
    then have "Join fs '','' = f @ CHR '','' # Join fs' '',''" using fs by simp
    then show ?thesis
      using leading_space_append [OF f(2) plain_char_not_in_space [OF comma_plain]] by simp
  qed
  have trail: "leading_space (map rev space_runes) (rev (Join fs '','')) = None"
  proof (cases "gs = []")
    case True
    with gs g show ?thesis by simp
  next
    case False
    then have "rev (Join fs '','') = rev g @ CHR '','' # rev (Join gs '','')"
      using gs by (simp add: Join_snoc)
    then show ?thesis
      using leading_space_append [OF g plain_char_not_in_space_rev [OF comma_plain]] by simp
  qed
  from lead trail show "TrimSpace (Join fs '','') = Join fs '',''" by (rule TrimSpace_id)
  show "CHR 0x0A \<notin> set (Join fs '','')"
    using set_Join [of fs "'',''"] assms(2) by auto
qed

lemma row_line_ok:
  assumes "row_ok cols d" and "cols \<noteq> []" and "\<forall>c \<in> set cols. in_range (col_DataType c)"
  shows "row_line d (map col_Name cols) \<noteq> []"
    and "TrimSpace (row_line d (map col_Name cols)) = row_line d (map col_Name cols)"
    and "CHR 0x0A \<notin> set (row_line d (map col_Name cols))"
    and "parseCSVLine (row_line d (map col_Name cols))
           = map (\<lambda>c. content (GetValue d (col_Name c))) cols"
proof -
  let ?vs = "map (\<lambda>c. GetValue d (col_Name c)) cols"
  have v: "GetValue d (col_Name c) \<noteq> VNil" "value_ok (GetValue d (col_Name c))"
    if "c \<in> set cols" for c
    using row_ok_value(1,3) [OF assms(1) that] assms(3) that by blast+
  have nn: "VNil \<notin> set ?vs"
  proof
    assume "VNil \<in> set ?vs"
    then obtain c where "c \<in> set cols" "GetValue d (col_Name c) = VNil" by auto
    with v(1) show False by blast
  qed
  have m: "map (\<lambda>colName. let v = GetValue d colName in if v = VNil then [] else formatValue v)
          (map col_Name cols) = map formatValue ?vs"
    unfolding map_map by (rule map_cong) (simp_all add: Let_def v(1))
  have line: "row_line d (map col_Name cols) = Join (map formatValue ?vs) '',''"
    by (simp only: row_line_def m)
  have ok: "\<forall>f \<in> set (map formatValue ?vs). f \<noteq> [] \<and> leading_space space_runes f = None
           \<and> leading_space (map rev space_runes) (rev f) = None \<and> CHR 0x0A \<notin> set f"
  proof
    fix f assume "f \<in> set (map formatValue ?vs)"
    then obtain c where c: "c \<in> set cols" "f = formatValue (GetValue d (col_Name c))" by auto
    show "f \<noteq> [] \<and> leading_space space_runes f = None
           \<and> leading_space (map rev space_runes) (rev f) = None \<and> CHR 0x0A \<notin> set f"
      using formatValue_field_ok [OF v [OF c(1)]] c(2) by simp
  qed
  have ne: "map formatValue ?vs \<noteq> []" using assms(2) by simp
  show "row_line d (map col_Name cols) \<noteq> []"
    and "TrimSpace (row_line d (map col_Name cols)) = row_line d (map col_Name cols)"
    and "CHR 0x0A \<notin> set (row_line d (map col_Name cols))"
    using Join_fields_ok [OF ne ok] line by simp_all
  show "parseCSVLine (row_line d (map col_Name cols))
           = map (\<lambda>c. content (GetValue d (col_Name c))) cols"
    using parseCSVLine_loop_Join [of ?vs "[]"] nn assms(2)
    by (simp add: line parseCSVLine_def comp_def)
qed

lemma fill_row_values:
  assumes "\<forall>c \<in> set cols. parseValue (g c) (col_DataType c) = Some (f (col_Name c))"
  shows "\<exists>d'. fill_row cols (map g cols) d0 = Inr d'
           \<and> (\<forall>n. d' n = (if n \<in> col_Name ` set cols then Some (f n) else d0 n))"
  using assms
proof (induction cols arbitrary: d0)
  case Nil
  then show ?case by simp
next
  case (Cons c cols)
  from Cons.prems have "\<forall>c \<in> set cols. parseValue (g c) (col_DataType c) = Some (f (col_Name c))"
    by simp
  from Cons.IH [OF this, of "SetValue d0 (col_Name c) (f (col_Name c))"]
  obtain d' where d': "fill_row cols (map g cols) (SetValue d0 (col_Name c) (f (col_Name c))) = Inr d'"
    "\<forall>n. d' n = (if n \<in> col_Name ` set cols then Some (f n)
                  else SetValue d0 (col_Name c) (f (col_Name c)) n)"
    by blast
  have "fill_row (c # cols) (map g (c # cols)) d0 = Inr d'"
    using Cons.prems d'(1) by simp
  moreover have "\<forall>n. d' n = (if n \<in> col_Name ` set (c # cols) then Some (f n) else d0 n)"
    using d'(2) by (auto simp: SetValue_def)
  ultimately show ?case by blast
qed

lemma fill_row_row_line:
  assumes "row_ok cols d" and "\<forall>c \<in> set cols. in_range (col_DataType c)"
  shows "\<exists>d'. fill_row cols (map (\<lambda>c. content (GetValue d (col_Name c))) cols) Map.empty = Inr d'
           \<and> (\<forall>c \<in> set cols. d' (col_Name c) = d (col_Name c))"
proof -
  have "\<forall>c \<in> set cols. parseValue (content (GetValue d (col_Name c))) (col_DataType c)
          = Some (GetValue d (col_Name c))"
    using parseValue_content row_ok_value(2,3) [OF assms(1)] assms(2) by blast
  from fill_row_values [of cols "\<lambda>c. content (GetValue d (col_Name c))" "GetValue d", OF this, of Map.empty]
  obtain d' where d': "fill_row cols (map (\<lambda>c. content (GetValue d (col_Name c))) cols) Map.empty = Inr d'"
    "\<forall>n. d' n = (if n \<in> col_Name ` set cols then Some (GetValue d n) else None)"
    by auto
  have "\<forall>c \<in> set cols. d' (col_Name c) = d (col_Name c)"
    using d'(2) row_ok_value(4) [OF assms(1)] assms(2) by auto
  with d'(1) show ?thesis by blast
qed


subsection \<open>Loading the rows simulates the inserts that built the table\<close>

lemma ValidateRow_columns_cong:
  "\<forall>c \<in> set cols. d' (col_Name c) = d (col_Name c)
   \<Longrightarrow> ValidateRow_columns d' cols = ValidateRow_columns d cols"
  by (induction cols) (auto split: option.splits)

lemma ValidateRow_columns_None:
  "ValidateRow_columns d cols = None
   \<Longrightarrow> \<forall>c \<in> set cols. \<exists>v. d (col_Name c) = Some v \<and> validateValueType c v = None"
  by (induction cols) (auto split: option.splits)

lemma unique_scan_cong:
  "list_all2 (\<lambda>r r'. h' r' c = h r c) rows rows'
   \<Longrightarrow> unique_scan h' c v rows' = unique_scan h c v rows"
  by (induction rows rows' rule: list_all2_induct) (auto simp: GetValue_def Let_def)

lemma ValidateRow_unique_cong:
  assumes "\<forall>c \<in> set cols. d' (col_Name c) = d (col_Name c)"
    and "list_all2 (\<lambda>r r'. \<forall>c \<in> set cols. h' r' (col_Name c) = h r (col_Name c)) rows rows'"
  shows "set cs \<subseteq> set cols
         \<Longrightarrow> ValidateRow_unique h' rows' d' cs = ValidateRow_unique h rows d cs"
proof (induction cs)
  case Nil
  then show ?case by simp
next
  case (Cons c cs)
  then have c: "c \<in> set cols" and cs: "set cs \<subseteq> set cols" by auto
  have "list_all2 (\<lambda>r r'. h' r' (col_Name c) = h r (col_Name c)) rows rows'"
    using assms(2) by (rule list_all2_mono) (use c in blast)
  then have u: "unique_scan h' (col_Name c) v rows' = unique_scan h (col_Name c) v rows" for v
    by (rule unique_scan_cong)
  have "d' (col_Name c) = d (col_Name c)" using assms(1) c by blast
  with u Cons.IH [OF cs] show ?case by (simp split: option.splits)
qed

lemma NewTable_pk_mem: "NewTable_pk cols \<noteq> [] \<Longrightarrow> NewTable_pk cols \<in> col_Name ` set cols"
  by (induction cols) (auto split: if_splits)

lemma sim_heap_update:
  assumes "sim cols h t h' t'" and "n \<notin> set (tbl_Rows t')"
  shows "sim cols h t (h'(n := d)) t'"
proof -
  have "list_all2 (\<lambda>r r'. \<forall>c \<in> set cols. h' r' (col_Name c) = h r (col_Name c))
          (tbl_Rows t) (tbl_Rows t')"
    using assms(1) by (simp add: sim_def)
  then have "list_all2 (\<lambda>r r'. \<forall>c \<in> set cols. (h'(n := d)) r' (col_Name c) = h r (col_Name c))
          (tbl_Rows t) (tbl_Rows t')"
    by (rule list.rel_mono_strong) (use assms(2) in auto)
  with assms(1) show ?thesis by (simp add: sim_def)
qed

lemma sim_InsertRow:
  assumes s: "sim cols h t h' t'" and pk: "tbl_PrimaryKey t = NewTable_pk cols"
    and d: "\<forall>c \<in> set cols. h' r' (col_Name c) = h r (col_Name c)"
    and i: "InsertRow h t r = (None, t1)"
  shows "\<exists>t1'. InsertRow h' t' r' = (None, t1') \<and> sim cols h t1 h' t1'
           \<and> tbl_Rows t1' = tbl_Rows t' @ [r'] \<and> tbl_PrimaryKey t1 = NewTable_pk cols"
proof -
  from s have c: "tbl_Columns t = cols" "tbl_Columns t' = cols"
    and p: "tbl_PrimaryKey t' = tbl_PrimaryKey t"
    and n: "tbl_Name t' = tbl_Name t"
    and x: "\<And>v. tbl_index t' v = None \<longleftrightarrow> tbl_index t v = None"
    and l: "list_all2 (\<lambda>r r'. \<forall>c \<in> set cols. h' r' (col_Name c) = h r (col_Name c))
              (tbl_Rows t) (tbl_Rows t')"
    by (simp_all add: sim_def)
  have key: "h' r' (tbl_PrimaryKey t) = h r (tbl_PrimaryKey t)" if "tbl_PrimaryKey t \<noteq> []"
    using that pk NewTable_pk_mem [of cols] d by auto
  have v1: "ValidateRow_columns (h' r') cols = ValidateRow_columns (h r) cols"
    using d by (rule ValidateRow_columns_cong)
  have v2: "ValidateRow_pk t' (h' r') = ValidateRow_pk t (h r)"
  proof (cases "tbl_PrimaryKey t = []")
    case True
    then show ?thesis by (simp add: ValidateRow_pk_def p)
  next
    case False
    then have k: "h' r' (tbl_PrimaryKey t) = h r (tbl_PrimaryKey t)" by (rule key)
    show ?thesis
    proof (cases "h r (tbl_PrimaryKey t)")
      case None
      then show ?thesis using False k by (simp add: ValidateRow_pk_def p)
    next
      case (Some v)
      then show ?thesis
        using False k x [of v]
        by (cases "tbl_index t v"; cases "tbl_index t' v") (simp_all add: ValidateRow_pk_def p)
    qed
  qed
  have v3: "ValidateRow_unique h' (tbl_Rows t') (h' r') cols
              = ValidateRow_unique h (tbl_Rows t) (h r) cols"
    using ValidateRow_unique_cong [OF d l] by simp
  have v: "ValidateRow h' t' r' = ValidateRow h t r"
    unfolding ValidateRow_def c v1 v2 v3 by (rule refl)
  from i have ok: "ValidateRow h t r = None"
    by (auto simp: InsertRow_def split: option.splits)
  define t1' where "t1' = snd (InsertRow h' t' r')"
  have i': "InsertRow h' t' r' = (None, t1')"
    using v ok by (simp add: t1'_def InsertRow_def)
  have t1: "t1 = t\<lparr>tbl_Rows := tbl_Rows t @ [r],
             tbl_index := (if tbl_PrimaryKey t \<noteq> [] then
                  (case h r (tbl_PrimaryKey t) of
                     Some pkValue \<Rightarrow> (tbl_index t)(pkValue \<mapsto> r)
                   | None \<Rightarrow> tbl_index t)
                else tbl_index t)\<rparr>"
    using i ok by (simp add: InsertRow_def)
  have t1'': "t1' = t'\<lparr>tbl_Rows := tbl_Rows t' @ [r'],
             tbl_index := (if tbl_PrimaryKey t' \<noteq> [] then
                  (case h' r' (tbl_PrimaryKey t') of
                     Some pkValue \<Rightarrow> (tbl_index t')(pkValue \<mapsto> r')
                   | None \<Rightarrow> tbl_index t')
                else tbl_index t')\<rparr>"
    using v ok by (simp add: t1'_def InsertRow_def)
  have idx: "tbl_index t1' v = None \<longleftrightarrow> tbl_index t1 v = None" for v
  proof (cases "tbl_PrimaryKey t = []")
    case True
    then show ?thesis using x [of v] by (simp add: t1 t1'' p)
  next
    case False
    then have k: "h' r' (tbl_PrimaryKey t) = h r (tbl_PrimaryKey t)" by (rule key)
    show ?thesis
      using False k x [of v] by (cases "h r (tbl_PrimaryKey t)") (simp_all add: t1 t1'' p)
  qed
  have rows: "list_all2 (\<lambda>r r'. \<forall>c \<in> set cols. h' r' (col_Name c) = h r (col_Name c))
              (tbl_Rows t1) (tbl_Rows t1')"
    using l d by (simp add: t1 t1'' list_all2_appendI)
  have "sim cols h t1 h' t1'"
    unfolding sim_def using idx rows c p n by (simp add: t1 t1'')
  moreover have "tbl_Rows t1' = tbl_Rows t' @ [r']" by (simp add: t1'')
  moreover have "tbl_PrimaryKey t1 = NewTable_pk cols" using pk by (simp add: t1)
  ultimately show ?thesis using i' by blast
qed

lemma load_rows_sim:
  assumes cols: "cols \<noteq> []" "\<forall>c \<in> set cols. in_range (col_DataType c)"
  shows "sim cols h t h' t' \<Longrightarrow> tbl_PrimaryKey t = NewTable_pk cols
    \<Longrightarrow> \<forall>r' \<in> set (tbl_Rows t'). r' < next
    \<Longrightarrow> InsertRows h t rows = (None, tfin)
    \<Longrightarrow> \<forall>r \<in> set rows. \<forall>c \<in> set cols. value_ok (GetValue (h r) (col_Name c))
    \<Longrightarrow> \<exists>t'' h'' n''. load_rows cols i (map (\<lambda>r. row_line (h r) (map col_Name cols)) rows) h' next t'
                           = Inr (t'', h'', n'')
          \<and> sim cols h tfin h'' t''"
proof (induction rows arbitrary: t t' h' "next" i)
  case Nil
  then show ?case by simp
next
  case (Cons r rows)
  from Cons.prems(4) obtain t1 where t1: "InsertRow h t r = (None, t1)"
    and rest: "InsertRows h t1 rows = (None, tfin)"
    by (auto split: prod.splits option.splits)
  from Cons.prems(1) have tc: "tbl_Columns t = cols" by (simp add: sim_def)
  from t1 have "ValidateRow_columns (h r) cols = None"
    by (auto simp: InsertRow_def ValidateRow_def tc split: option.splits)
  note vc = ValidateRow_columns_None [OF this]
  have ok: "row_ok cols (h r)"
    unfolding row_ok_def
  proof
    fix c assume c: "c \<in> set cols"
    with vc obtain v where v: "h r (col_Name c) = Some v" "validateValueType c v = None" by blast
    from Cons.prems(5) c have "value_ok (GetValue (h r) (col_Name c))" by simp
    with v(1) have "value_ok v" by (simp add: GetValue_def)
    with v show "\<exists>v. h r (col_Name c) = Some v \<and> validateValueType c v = None \<and> value_ok v"
      by blast
  qed
  let ?line = "row_line (h r) (map col_Name cols)"
  note rl = row_line_ok [OF ok cols]
  from fill_row_row_line [OF ok cols(2)] obtain d' where
    d': "fill_row cols (map (\<lambda>c. content (GetValue (h r) (col_Name c))) cols) Map.empty = Inr d'"
       "\<forall>c \<in> set cols. d' (col_Name c) = h r (col_Name c)"
    by blast
  let ?h = "h'(next := d')"
  have fresh: "next \<notin> set (tbl_Rows t')" using Cons.prems(3) by auto
  have s1: "sim cols h t ?h t'" using Cons.prems(1) fresh by (rule sim_heap_update)
  have dd: "\<forall>c \<in> set cols. ?h next (col_Name c) = h r (col_Name c)" using d'(2) by simp
  from sim_InsertRow [OF s1 Cons.prems(2) dd t1] obtain t1' where
    t1': "InsertRow ?h t' next = (None, t1')" "sim cols h t1 ?h t1'"
      "tbl_Rows t1' = tbl_Rows t' @ [next]" "tbl_PrimaryKey t1 = NewTable_pk cols"
    by blast
  have lt: "\<forall>r' \<in> set (tbl_Rows t1'). r' < Suc next"
    using Cons.prems(3) t1'(3) by auto
  have vo: "\<forall>r \<in> set rows. \<forall>c \<in> set cols. value_ok (GetValue (h r) (col_Name c))"
    using Cons.prems(5) by simp
  from Cons.IH [OF t1'(2) t1'(4) lt rest vo, of "Suc i"] obtain t'' h'' n'' where
    fin: "load_rows cols (Suc i) (map (\<lambda>r. row_line (h r) (map col_Name cols)) rows) ?h (Suc next) t1'
            = Inr (t'', h'', n'')" "sim cols h tfin h'' t''"
    by blast
  have "load_rows cols i (?line # map (\<lambda>r. row_line (h r) (map col_Name cols)) rows) h' next t'
          = Inr (t'', h'', n'')"
    using rl d'(1) t1'(1) fin(1) by (simp add: Let_def)
  with fin(2) show ?case by auto
qed

lemma sim_row_values:
  assumes "sim cols h t h' t'"
  shows "row_values h' t' = row_values h t"
proof -
  from assms have c: "tbl_Columns t = cols" "tbl_Columns t' = cols"
    and l: "list_all2 (\<lambda>r r'. \<forall>c \<in> set cols. h' r' (col_Name c) = h r (col_Name c))
              (tbl_Rows t) (tbl_Rows t')"
    by (simp_all add: sim_def)
  have "list_all2 (\<lambda>r r'. map (GetValue (h r)) (map col_Name cols)
                          = map (GetValue (h' r')) (map col_Name cols)) (tbl_Rows t) (tbl_Rows t')"
    using l by (rule list_all2_mono) (auto simp: GetValue_def)
  then have "map (\<lambda>r. map (GetValue (h r)) (map col_Name cols)) (tbl_Rows t)
           = map (\<lambda>r'. map (GetValue (h' r')) (map col_Name cols)) (tbl_Rows t')"
    by (induction rule: list_all2_induct) auto
  then show ?thesis by (simp add: row_values_def GetColumnNames_def c)
qed


subsection \<open>The schema line\<close>

lemma colDef_of_tail: "colDef_of col = col_Name col @ CHR '':'' # colDef_tail col"
  by (simp add: colDef_of_def colDef_tail_def)

lemma colDef_tail_props:
  assumes "in_range (col_DataType col)"
  shows "Split (colDef_tail col) (CHR '':'')
           = DataType_String (col_DataType col)
               # (if col_PrimaryKey col then [''PRIMARY_KEY''] else [])
               @ (if col_Unique col then [''UNIQUE''] else [])"
    and "colDef_tail col \<noteq> []"
    and "plain_char (last (colDef_tail col))"
    and "CHR '','' \<notin> set (colDef_tail col)"
    and "CHR 0x0A \<notin> set (colDef_tail col)"
    and "parseDataType_csv (DataType_String (col_DataType col)) = col_DataType col"
  using assms
  by (cases "col_DataType col"; cases "col_PrimaryKey col"; cases "col_Unique col";
      simp add: colDef_tail_def in_range_def plain_char_def parseDataType_csv.simps)+

lemma colon_plain: "plain_char (CHR '':'')"
  by (simp add: plain_char_def)

lemma parse_colDef_colDef_of:
  assumes "name_ok (col_Name col)" and "in_range (col_DataType col)"
  shows "parse_colDef (colDef_of col) = Inr col"
proof -
  note tp = colDef_tail_props [OF assms(2)]
  have "leading_space space_runes (col_Name col) = None"
    using assms(1) by (simp add: name_ok_def trim_left_fixed)
  then have l: "leading_space space_runes (colDef_of col) = None"
    unfolding colDef_of_tail
    by (rule leading_space_append) (rule plain_char_not_in_space [OF colon_plain])
  obtain bs b where b: "colDef_tail col = bs @ [b]" using tp(2) by (metis rev_exhaust)
  then have "plain_char b" using tp(3) by simp
  then have "leading_space (map rev space_runes) (b # rev (col_Name col @ CHR '':'' # bs)) = None"
    by (rule plain_char_trailing)
  then have t: "leading_space (map rev space_runes) (rev (colDef_of col)) = None"
    by (simp add: colDef_of_tail b)
  have trim: "TrimSpace (colDef_of col) = colDef_of col" using l t by (rule TrimSpace_id)
  have "CHR '':'' \<notin> set (col_Name col)" using assms(1) by (simp add: name_ok_def)
  then have sp: "Split (colDef_of col) (CHR '':'')
      = col_Name col # DataType_String (col_DataType col)
               # (if col_PrimaryKey col then [''PRIMARY_KEY''] else [])
               @ (if col_Unique col then [''UNIQUE''] else [])"
    by (simp add: colDef_of_tail Split_append_sep tp(1))
  have "parse_colDef (colDef_of col)
          = Inr \<lparr>col_Name = col_Name col, col_DataType = col_DataType col,
                  col_PrimaryKey = col_PrimaryKey col, col_Unique = col_Unique col\<rparr>"
    by (simp add: parse_colDef_def trim sp tp(6) Let_def)
  moreover have "\<lparr>col_Name = col_Name col, col_DataType = col_DataType col,
                  col_PrimaryKey = col_PrimaryKey col, col_Unique = col_Unique col\<rparr> = col"
    by (cases col) simp
  ultimately show ?thesis by simp
qed

lemma parse_colDefs_colDef_of:
  "\<forall>c \<in> set cols. name_ok (col_Name c) \<and> in_range (col_DataType c)
   \<Longrightarrow> parse_colDefs (map colDef_of cols) = Inr cols"
  by (induction cols) (simp_all add: parse_colDef_colDef_of)

lemma colDef_of_no_sep:
  assumes "name_ok (col_Name col)" and "in_range (col_DataType col)"
  shows "CHR '','' \<notin> set (colDef_of col)" and "CHR 0x0A \<notin> set (colDef_of col)"
  using assms colDef_tail_props(4,5) [OF assms(2)]
  by (simp_all add: colDef_of_tail name_ok_def)

subsection \<open>The round trip\<close>

lemma InsertRows_columns:
  "InsertRows h t rows = (None, t') \<Longrightarrow>
     tbl_Columns t' = tbl_Columns t \<and> tbl_Name t' = tbl_Name t \<and> tbl_PrimaryKey t' = tbl_PrimaryKey t"
proof (induction rows arbitrary: t)
  case Nil
  then show ?case by simp
next
  case (Cons r rows)
  from Cons.prems obtain t1 where t1: "InsertRow h t r = (None, t1)"
    and rest: "InsertRows h t1 rows = (None, t')"
    by (auto split: prod.splits option.splits)
  from t1 have "tbl_Columns t1 = tbl_Columns t \<and> tbl_Name t1 = tbl_Name t
      \<and> tbl_PrimaryKey t1 = tbl_PrimaryKey t"
    by (auto simp: InsertRow_def split: option.splits)
  with Cons.IH [OF rest] show ?case by simp
qed

lemma InsertRows_rows:
  "InsertRows h t rows = (None, t') \<Longrightarrow> tbl_Rows t' = tbl_Rows t @ rows"
proof (induction rows arbitrary: t)
  case Nil
  then show ?case by simp
next
  case (Cons r rows)
  from Cons.prems obtain t1 where t1: "InsertRow h t r = (None, t1)"
    and rest: "InsertRows h t1 rows = (None, t')"
    by (auto split: prod.splits option.splits)
  from t1 have "tbl_Rows t1 = tbl_Rows t @ [r]"
    by (auto simp: InsertRow_def split: option.splits)
  with Cons.IH [OF rest] show ?case by simp
qed

lemma InsertRows_valid:
  "InsertRows h t rows = (None, t') \<Longrightarrow>
     \<forall>r \<in> set rows. ValidateRow_columns (h r) (tbl_Columns t) = None"
proof (induction rows arbitrary: t)
  case Nil
  then show ?case by simp
next
  case (Cons r rows)
  from Cons.prems obtain t1 where t1: "InsertRow h t r = (None, t1)"
    and rest: "InsertRows h t1 rows = (None, t')"
    by (auto split: prod.splits option.splits)
  from t1 have c: "tbl_Columns t1 = tbl_Columns t"
    and v: "ValidateRow_columns (h r) (tbl_Columns t) = None"
    by (auto simp: InsertRow_def ValidateRow_def split: option.splits)
  from Cons.IH [OF rest] c v show ?case by simp
qed

text \<open>
  C2, amended. Take a table built by inserting rows into a new table with at least one
  column, where every column has one of the three data types and a name without comma, colon
  or newline and without white space at its front, and where every Text value is not empty,
  has no newline in it and no white space at either end, and is not wrapped in a pair of
  quotes. Then \<^verbatim>\<open>TableFromCSV\<close> applied to the output of \<^verbatim>\<open>ToCSV\<close> succeeds, and the table
  it returns has the same name, the same column definitions in the same order, the same
  primary key and the same row values in the same row order. Both flags and all three data
  types are covered; the store and the first free address the loader starts from are
  arbitrary.
\<close>

theorem C2_round_trip:
  assumes cols: "cols \<noteq> []"
    and names: "\<forall>c \<in> set cols. name_ok (col_Name c) \<and> in_range (col_DataType c)"
    and built: "InsertRows h (NewTable name cols) rows = (None, t)"
    and vals: "\<forall>r \<in> set rows. \<forall>c \<in> set cols. value_ok (GetValue (h r) (col_Name c))"
  shows "\<exists>t' h' next'. TableFromCSV h0 next name (ToCSV h t) = Inr (t', h', next')
           \<and> tbl_Name t' = tbl_Name t \<and> tbl_Columns t' = tbl_Columns t
           \<and> tbl_PrimaryKey t' = tbl_PrimaryKey t
           \<and> row_values h' t' = row_values h t"
proof -
  have tcols: "tbl_Columns t = cols" and trows: "tbl_Rows t = rows"
    using InsertRows_columns [OF built] InsertRows_rows [OF built] by (simp_all add: NewTable_def)
  have rng: "\<forall>c \<in> set cols. in_range (col_DataType c)" using names by blast
  let ?defs = "map colDef_of cols"
  let ?header = "''# SCHEMA: '' @ Join ?defs '',''"
  let ?lines = "map (\<lambda>r. row_line (h r) (map col_Name cols)) rows"
  have csv: "ToCSV h t = Join (?header # ?lines) [CHR 0x0A]"
    by (simp add: ToCSV_def tcols trows GetColumnNames_def)
  have nodef: "\<forall>x \<in> set ?defs. CHR '','' \<notin> set x" "\<forall>x \<in> set ?defs. CHR 0x0A \<notin> set x"
    using colDef_of_no_sep names by auto
  have "CHR 0x0A \<notin> set (Join ?defs '','')"
    using set_Join [of ?defs "'',''"] nodef(2) by auto
  then have hnl: "CHR 0x0A \<notin> set ?header" by simp
  have valid: "\<forall>r \<in> set rows. ValidateRow_columns (h r) cols = None"
    using InsertRows_valid [OF built] by (simp add: NewTable_def)
  have lnl: "\<forall>l \<in> set ?lines. CHR 0x0A \<notin> set l"
  proof
    fix l assume "l \<in> set ?lines"
    then obtain r where r: "r \<in> set rows" "l = row_line (h r) (map col_Name cols)" by auto
    have "row_ok cols (h r)"
      unfolding row_ok_def
    proof
      fix c assume c: "c \<in> set cols"
      from valid r(1) have "ValidateRow_columns (h r) cols = None" by blast
      from ValidateRow_columns_None [OF this] c
      obtain v where v: "h r (col_Name c) = Some v" "validateValueType c v = None" by blast
      from vals r(1) c have "value_ok (GetValue (h r) (col_Name c))" by simp
      with v(1) have "value_ok v" by (simp add: GetValue_def)
      with v show "\<exists>v. h r (col_Name c) = Some v \<and> validateValueType c v = None \<and> value_ok v"
        by blast
    qed
    from row_line_ok(3) [OF this cols rng] r(2) show "CHR 0x0A \<notin> set l" by simp
  qed
  have split: "Split (ToCSV h t) (CHR 0x0A) = ?header # ?lines"
    unfolding csv by (rule Split_Join) (use hnl lnl in auto)
  have pre: "HasPrefix ?header ''# SCHEMA: ''" "TrimPrefix ?header ''# SCHEMA: '' = Join ?defs '',''"
    by (simp_all add: HasPrefix_def TrimPrefix_def)
  have sd: "Split (Join ?defs '','') (CHR '','') = ?defs"
    by (rule Split_Join) (use cols nodef(1) in auto)
  have pc: "parse_colDefs ?defs = Inr cols"
    using names by (rule parse_colDefs_colDef_of)
  have s0: "sim cols h (NewTable name cols) h0 (NewTable name cols)"
    by (simp add: sim_def NewTable_def)
  have pk0: "tbl_PrimaryKey (NewTable name cols) = NewTable_pk cols" by (simp add: NewTable_def)
  have lt0: "\<forall>r' \<in> set (tbl_Rows (NewTable name cols)). r' < next" by (simp add: NewTable_def)
  from load_rows_sim [OF cols rng s0 pk0 lt0 built vals, of 1] obtain t' h' n' where
    ld: "load_rows cols 1 ?lines h0 next (NewTable name cols) = Inr (t', h', n')"
    and sm: "sim cols h t h' t'"
    by blast
  have "TableFromCSV h0 next name (ToCSV h t) = Inr (t', h', n')"
    unfolding TableFromCSV_def split using pre sd pc ld by simp
  moreover have "tbl_Name t' = tbl_Name t" "tbl_Columns t' = tbl_Columns t"
    "tbl_PrimaryKey t' = tbl_PrimaryKey t"
    using sm by (simp_all add: sim_def)
  moreover have "row_values h' t' = row_values h t" using sm by (rule sim_row_values)
  ultimately show ?thesis by blast
qed


subsection \<open>Examples\<close>

lemma ex_members_built:
  "InsertRows ex_members_heap (NewTable ''members'' ex_members_cols) [0, 1] = (None, ex_members)"
  "InsertRows ex_members_heap (NewTable ''members'' ex_members_cols) [2] = (None, ex_members_space)"
  "InsertRows ex_members_heap (NewTable ''members'' ex_members_cols) [3] = (None, ex_members_empty)"
  "InsertRows ex_members_heap (NewTable ''members'' ex_members_cols) [4] = (None, ex_members_quoted)"
  by (simp_all add: InsertRow_def ValidateRow_def ValidateRow_pk_def NewTable_def GetValue_def
      validateValueType.simps ex_codec_defs)

text \<open>
  C2 as stated fails. The table \<^verbatim>\<open>members (id INTEGER PRIMARY KEY, email TEXT UNIQUE,
  active BOOLEAN)\<close> uses both flags and its row (3, " c", true) covers the three data types;
  the Text starts with a space, which \<^verbatim>\<open>parseValue\<close> trims: the loaded row is (3, "c", true).
\<close>

theorem C2_round_trip_counterexample:
  "InsertRows ex_members_heap (NewTable ''members'' ex_members_cols) [2] = (None, ex_members_space)
   \<and> row_values ex_members_heap ex_members_space = [[VInt 3, VString '' c'', VBool True]]
   \<and> loaded_values (TableFromCSV (\<lambda>a. Map.empty) 0 ''members'' (ToCSV ex_members_heap ex_members_space))
       = Inr [[VInt 3, VString ''c'', VBool True]]"
proof -
  have "row_values ex_members_heap ex_members_space = [[VInt 3, VString '' c'', VBool True]]"
    by code_simp
  moreover have "loaded_values (TableFromCSV (\<lambda>a. Map.empty) 0 ''members''
                    (ToCSV ex_members_heap ex_members_space))
       = Inr [[VInt 3, VString ''c'', VBool True]]"
    by code_simp
  ultimately show ?thesis using ex_members_built(2) by simp
qed

theorem C2_round_trip_witness:
  "\<exists>t' h' next'. TableFromCSV (\<lambda>a. Map.empty) 0 ''members'' (ToCSV ex_members_heap ex_members)
                    = Inr (t', h', next')
     \<and> tbl_Columns t' = ex_members_cols
     \<and> row_values h' t' =
         [[VInt 1, VString ''a,b'', VBool True],
          [VInt (- 2), VString (''say '' @ [CHR 0x22] @ ''hi'' @ [CHR 0x22]), VBool False]]"
proof -
  have a: "ex_members_cols \<noteq> []" by (simp add: ex_members_cols_def)
  have b: "\<forall>c \<in> set ex_members_cols. name_ok (col_Name c) \<and> in_range (col_DataType c)"
    by code_simp
  have d: "\<forall>r \<in> set [0, 1]. \<forall>c \<in> set ex_members_cols.
             value_ok (GetValue (ex_members_heap r) (col_Name c))"
    by code_simp
  have e: "row_values ex_members_heap ex_members =
         [[VInt 1, VString ''a,b'', VBool True],
          [VInt (- 2), VString (''say '' @ [CHR 0x22] @ ''hi'' @ [CHR 0x22]), VBool False]]"
    by code_simp
  have f: "tbl_Columns ex_members = ex_members_cols" by (simp add: ex_members_def)
  show ?thesis
    using C2_round_trip [OF a b ex_members_built(1) d, of "\<lambda>a. Map.empty" 0] e f by auto
qed

text \<open>The two slips that the amended claim leaves out: an empty Text is written as an empty
  field, read back as \<^verbatim>\<open>nil\<close> and refused by the type check, so the table does not load;
  a Text in quotes loses them.\<close>

lemma empty_text_does_not_load:
  "row_values ex_members_heap ex_members_empty = [[VInt 4, VString [], VBool True]]
   \<and> loaded_values (TableFromCSV (\<lambda>a. Map.empty) 0 ''members'' (ToCSV ex_members_heap ex_members_empty))
       = Inl (InsertError 1 (TypeMismatch ''email'' DATATYPE_TEXT VNil))"
  by code_simp

lemma quoted_text_loses_quotes:
  "row_values ex_members_heap ex_members_quoted
     = [[VInt 5, VString ([CHR 0x22] @ ''q'' @ [CHR 0x22]), VBool False]]
   \<and> loaded_values (TableFromCSV (\<lambda>a. Map.empty) 0 ''members'' (ToCSV ex_members_heap ex_members_quoted))
       = Inr [[VInt 5, VString ''q'', VBool False]]"
  by code_simp

end
